theory Spec2Isabelle
  imports Main "HOL-Library.AList"
begin

section \<open>install-diff: a shallow embedding of \<open>index.js\<close>\<close>

text \<open>
  The program reads \<open>package.json\<close> and \<open>package-lock.json\<close>, asks the registry
  (\<open>npm show\<close>) for two versions per dependency, classifies the three versions and
  pushes rows to a table. JavaScript strings are modelled as \<open>string\<close> (ASCII text),
  \<open>undefined\<close> and \<open>null\<close> as \<open>None\<close>, \<open>console.warn\<close> as a list of messages that
  every function returns next to its value, and \<open>execSync\<close> as a function from the
  command line to its outcome.
\<close>

subsection \<open>The part of the \<open>semver\<close> package that the program calls\<close>

text \<open>
  \<open>semver\<close> is a dependency of the program, not part of it. The definitions below follow
  the package's strict (non-loose) mode, which is the one \<open>index.js\<close> uses:
  \<open>new SemVer(version)\<close>, \<open>valid\<close>, \<open>major\<close>, \<open>compare\<close>, \<open>diff\<close> and \<open>maxSatisfying\<close>.
  The grammar of ranges is not modelled: whether a version satisfies a range is a
  parameter (\<open>satisfies\<close>) of everything that resolves a range.
\<close>

definition is_digit :: "char \<Rightarrow> bool" where
  "is_digit c \<longleftrightarrow> c \<in> set ''0123456789''"

definition is_letterdashnumber :: "char \<Rightarrow> bool" where
  \<comment> \<open>\<open>[a-zA-Z0-9-]\<close>\<close>
  "is_letterdashnumber c \<longleftrightarrow>
     c \<in> set ''abcdefghijklmnopqrstuvwxyzABCDEFGHIJKLMNOPQRSTUVWXYZ0123456789-''"

definition is_space :: "char \<Rightarrow> bool" where
  \<comment> \<open>what \<open>String.prototype.trim\<close> removes, within ASCII: TAB, LF, VT, FF, CR, space\<close>
  "is_space c \<longleftrightarrow> (of_char c :: nat) \<in> {9, 10, 11, 12, 13, 32}"

definition trim :: "string \<Rightarrow> string" where
  "trim s = rev (dropWhile is_space (rev (dropWhile is_space s)))"

fun split_on :: "char \<Rightarrow> string \<Rightarrow> string list" where
  \<comment> \<open>\<open>s.split(c)\<close>: the pieces between the separators, \<open>[\"\"]\<close> for the empty string\<close>
  "split_on c [] = [[]]"
| "split_on c (x # xs) =
     (if x = c then [] # split_on c xs
      else (case split_on c xs of [] \<Rightarrow> [[x]] | y # ys \<Rightarrow> (x # y) # ys))"

fun join :: "string \<Rightarrow> string list \<Rightarrow> string" where
  \<comment> \<open>\<open>xs.join(sep)\<close>\<close>
  "join sep [] = []"
| "join sep [x] = x"
| "join sep (x # y # ys) = x @ sep @ join sep (y # ys)"

definition digit_val :: "char \<Rightarrow> nat" where
  "digit_val c = of_char c - 48"

definition nat_of_digits :: "string \<Rightarrow> nat" where
  \<comment> \<open>the integer that a string of decimal digits denotes\<close>
  "nat_of_digits ds = foldl (\<lambda>n c. 10 * n + digit_val c) 0 ds"

definition digit_char :: "nat \<Rightarrow> char" where
  "digit_char d = ''0123456789'' ! d"

fun show_nat :: "nat \<Rightarrow> string" where
  \<comment> \<open>\<open>String(n)\<close> for a non-negative integer below \<open>10^21\<close>: plain decimal digits\<close>
  "show_nat n = (if n < 10 then [digit_char n] else show_nat (n div 10) @ [digit_char (n mod 10)])"

declare show_nat.simps [simp del]

definition MAX_LENGTH :: nat where
  "MAX_LENGTH = 256"

definition MAX_SAFE_INTEGER :: nat where
  "MAX_SAFE_INTEGER = 9007199254740991"

definition numericIdentifier :: "string \<Rightarrow> bool" where
  \<comment> \<open>\<open>0|[1-9]\\d*\<close>\<close>
  "numericIdentifier s \<longleftrightarrow> s \<noteq> [] \<and> list_all is_digit s \<and> (s = ''0'' \<or> hd s \<noteq> CHR ''0'')"

definition nonNumericIdentifier :: "string \<Rightarrow> bool" where
  \<comment> \<open>\<open>\\d*[a-zA-Z-][a-zA-Z0-9-]*\<close>: letters, digits and hyphens, not all of them digits\<close>
  "nonNumericIdentifier s \<longleftrightarrow> list_all is_letterdashnumber s \<and> \<not> list_all is_digit s"

definition prereleaseIdentifier :: "string \<Rightarrow> bool" where
  "prereleaseIdentifier s \<longleftrightarrow> nonNumericIdentifier s \<or> numericIdentifier s"

definition buildIdentifier :: "string \<Rightarrow> bool" where
  \<comment> \<open>\<open>[a-zA-Z0-9-]+\<close>\<close>
  "buildIdentifier s \<longleftrightarrow> s \<noteq> [] \<and> list_all is_letterdashnumber s"

text \<open>
  A prerelease identifier is kept as a number when it is all digits and below
  \<open>MAX_SAFE_INTEGER\<close>, and as a string otherwise.
\<close>

datatype ident = Num nat | Str string

definition numberify :: "string \<Rightarrow> ident" where
  "numberify s =
     (if s \<noteq> [] \<and> list_all is_digit s \<and> nat_of_digits s < MAX_SAFE_INTEGER
      then Num (nat_of_digits s) else Str s)"

fun show_ident :: "ident \<Rightarrow> string" where
  "show_ident (Num n) = show_nat n"
| "show_ident (Str s) = s"

record SemVer =
  major :: nat
  minor :: nat
  patch :: nat
  prerelease :: "ident list"
  build :: "string list"

definition format :: "SemVer \<Rightarrow> string" where
  \<comment> \<open>\<open>SemVer.format()\<close>, the value of the \<open>version\<close> field: the build is left out\<close>
  "format v =
     show_nat (major v) @ ''.'' @ show_nat (minor v) @ ''.'' @ show_nat (patch v) @
     (if prerelease v = [] then [] else ''-'' @ join ''.'' (map show_ident (prerelease v)))"

text \<open>
  The constructor \<open>new SemVer(version)\<close>. It throws a \<open>TypeError\<close> (here: \<open>Inl\<close> of its
  message) when the string is longer than \<open>MAX_LENGTH\<close>, when the trimmed string does
  not match \<open>^v?MAIN(-PRERELEASE)?(+BUILD)?$\<close>, or when a number of the main version
  exceeds \<open>MAX_SAFE_INTEGER\<close>. The regular expression is read off in three cuts: the
  build is what follows the first \<open>+\<close>, the prerelease what follows the first \<open>-\<close>
  before it, and the main version is what is left.
\<close>

definition strip_v :: "string \<Rightarrow> string" where
  "strip_v s = (case s of c # cs \<Rightarrow> if c = CHR ''v'' then cs else s | [] \<Rightarrow> s)"

definition after_sep :: "char \<Rightarrow> string \<Rightarrow> string option" where
  \<comment> \<open>what follows the first occurrence of the separator, if it occurs\<close>
  "after_sep c s = (case dropWhile (\<lambda>x. x \<noteq> c) s of [] \<Rightarrow> None | _ # r \<Rightarrow> Some r)"

definition before_sep :: "char \<Rightarrow> string \<Rightarrow> string" where
  "before_sep c s = takeWhile (\<lambda>x. x \<noteq> c) s"

definition matches_FULL :: "string \<Rightarrow> bool" where
  "matches_FULL s \<longleftrightarrow>
     (let core = before_sep CHR ''+'' s;
          main = split_on CHR ''.'' (before_sep CHR ''-'' core)
      in length main = 3 \<and> list_all numericIdentifier main
         \<and> (case after_sep CHR ''-'' core of None \<Rightarrow> True
             | Some p \<Rightarrow> list_all prereleaseIdentifier (split_on CHR ''.'' p))
         \<and> (case after_sep CHR ''+'' s of None \<Rightarrow> True
             | Some b \<Rightarrow> list_all buildIdentifier (split_on CHR ''.'' b)))"

definition parse :: "string \<Rightarrow> string + SemVer" where
  "parse version =
     (if length version > MAX_LENGTH then Inl ''version is longer than 256 characters''
      else
        let s = strip_v (trim version);
            core = before_sep CHR ''+'' s;
            main = map nat_of_digits (split_on CHR ''.'' (before_sep CHR ''-'' core))
        in
          if \<not> matches_FULL s then Inl (''Invalid Version: '' @ version)
          else if main ! 0 > MAX_SAFE_INTEGER then Inl ''Invalid major version''
          else if main ! 1 > MAX_SAFE_INTEGER then Inl ''Invalid minor version''
          else if main ! 2 > MAX_SAFE_INTEGER then Inl ''Invalid patch version''
          else Inr \<lparr> major = main ! 0, minor = main ! 1, patch = main ! 2,
                     prerelease = (case after_sep CHR ''-'' core of None \<Rightarrow> []
                                   | Some p \<Rightarrow> map numberify (split_on CHR ''.'' p)),
                     build = (case after_sep CHR ''+'' s of None \<Rightarrow> []
                              | Some b \<Rightarrow> split_on CHR ''.'' b) \<rparr>)"

definition semver_valid :: "string \<Rightarrow> string option" where
  \<comment> \<open>\<open>semver.valid(v)\<close> on a string: the normalised version, or \<open>null\<close>\<close>
  "semver_valid v = (case parse v of Inl _ \<Rightarrow> None | Inr sv \<Rightarrow> Some (format sv))"

definition semver_major :: "string \<Rightarrow> string + nat" where
  \<comment> \<open>\<open>semver.major(v)\<close>; it throws on an invalid version\<close>
  "semver_major v = map_sum id major (parse v)"

subsubsection \<open>Comparison\<close>

text \<open>
  \<open>compareIdentifiers\<close> converts both arguments with unary \<open>+\<close> when both are all
  digits. A digit string that was kept as a string is at least \<open>MAX_SAFE_INTEGER\<close>,
  and its conversion rounds to the nearest double (53 bits, ties to even).
\<close>

fun bit_length :: "nat \<Rightarrow> nat" where
  "bit_length n = (if n = 0 then 0 else Suc (bit_length (n div 2)))"

declare bit_length.simps [simp del]

definition to_double :: "nat \<Rightarrow> nat" where
  "to_double n =
     (if n < 2 ^ 53 then n
      else let e = bit_length n - 53; q = n div 2 ^ e; r = n mod 2 ^ e; h = 2 ^ (e - 1)
           in if r > h \<or> (r = h \<and> odd q) then (q + 1) * 2 ^ e else q * 2 ^ e)"

fun is_numeric :: "ident \<Rightarrow> bool" where
  \<comment> \<open>\<open>/^[0-9]+$/.test(a)\<close>\<close>
  "is_numeric (Num n) = True"
| "is_numeric (Str s) = (s \<noteq> [] \<and> list_all is_digit s)"

fun to_number :: "ident \<Rightarrow> nat" where
  \<comment> \<open>\<open>+a\<close>, for an argument that passed the numeric test\<close>
  "to_number (Num n) = n"
| "to_number (Str s) = to_double (nat_of_digits s)"

fun string_less :: "string \<Rightarrow> string \<Rightarrow> bool" where
  \<comment> \<open>\<open>a < b\<close> on strings: by code units, a proper prefix first\<close>
  "string_less [] [] = False"
| "string_less [] (y # ys) = True"
| "string_less (x # xs) [] = False"
| "string_less (x # xs) (y # ys) =
     ((of_char x :: nat) < of_char y \<or> (x = y \<and> string_less xs ys))"

definition compareIdentifiers :: "ident \<Rightarrow> ident \<Rightarrow> int" where
  "compareIdentifiers a b =
     (let anum = is_numeric a; bnum = is_numeric b
      in if anum \<and> bnum then
           (if to_number a = to_number b then 0 else if to_number a < to_number b then -1 else 1)
         else if a = b then 0
         else if anum \<and> \<not> bnum then -1
         else if bnum \<and> \<not> anum then 1
         else if string_less (show_ident a) (show_ident b) then -1
         else 1)"

definition or_else :: "int \<Rightarrow> int \<Rightarrow> int" where
  \<comment> \<open>\<open>x || y\<close> on numbers\<close>
  "or_else x y = (if x \<noteq> 0 then x else y)"

definition compareMain :: "SemVer \<Rightarrow> SemVer \<Rightarrow> int" where
  "compareMain this other =
     or_else (compareIdentifiers (Num (major this)) (Num (major other)))
       (or_else (compareIdentifiers (Num (minor this)) (Num (minor other)))
          (compareIdentifiers (Num (patch this)) (Num (patch other))))"

fun comparePre_loop :: "ident list \<Rightarrow> ident list \<Rightarrow> int" where
  \<comment> \<open>the \<open>do ... while (++i)\<close> loop, on what is left of both lists from index \<open>i\<close>\<close>
  "comparePre_loop [] [] = 0"
| "comparePre_loop (a # as) [] = 1"
| "comparePre_loop [] (b # bs) = -1"
| "comparePre_loop (a # as) (b # bs) =
     (if a = b then comparePre_loop as bs else compareIdentifiers a b)"

definition comparePre :: "SemVer \<Rightarrow> SemVer \<Rightarrow> int" where
  "comparePre this other =
     (if prerelease this \<noteq> [] \<and> prerelease other = [] then -1
      else if prerelease this = [] \<and> prerelease other \<noteq> [] then 1
      else if prerelease this = [] \<and> prerelease other = [] then 0
      else comparePre_loop (prerelease this) (prerelease other))"

definition compare :: "SemVer \<Rightarrow> SemVer \<Rightarrow> int" where
  "compare this other =
     (if format other = format this then 0
      else or_else (compareMain this other) (comparePre this other))"

definition compare_string :: "SemVer \<Rightarrow> string \<Rightarrow> string + int" where
  \<comment> \<open>\<open>this.compare(other)\<close> when \<open>other\<close> is a string\<close>
  "compare_string this other =
     (if other = format this then Inr 0 else map_sum id (compare this) (parse other))"

subsubsection \<open>\<open>semver.diff\<close>\<close>

definition diff :: "SemVer \<Rightarrow> SemVer \<Rightarrow> string option" where
  "diff v1 v2 =
     (let comparison = compare v1 v2 in
      if comparison = 0 then None
      else
        let v1Higher = comparison > 0;
            highVersion = (if v1Higher then v1 else v2);
            lowVersion = (if v1Higher then v2 else v1);
            highHasPre = (prerelease highVersion \<noteq> []);
            lowHasPre = (prerelease lowVersion \<noteq> []);
            prefix = (if highHasPre then ''pre'' else [])
        in
          if lowHasPre \<and> \<not> highHasPre \<and> patch lowVersion = 0 \<and> minor lowVersion = 0
          then Some ''major''
          else if lowHasPre \<and> \<not> highHasPre \<and> compareMain lowVersion highVersion = 0
          then (if minor lowVersion \<noteq> 0 \<and> patch lowVersion = 0 then Some ''minor''
                else Some ''patch'')
          else if major v1 \<noteq> major v2 then Some (prefix @ ''major'')
          else if minor v1 \<noteq> minor v2 then Some (prefix @ ''minor'')
          else if patch v1 \<noteq> patch v2 then Some (prefix @ ''patch'')
          else Some ''prerelease'')"

definition semver_diff :: "string \<Rightarrow> string \<Rightarrow> string + string option" where
  \<comment> \<open>\<open>semver.diff(version1, version2)\<close>; it throws when one of them is invalid\<close>
  "semver_diff version1 version2 =
     (case parse version1 of Inl e \<Rightarrow> Inl e
      | Inr v1 \<Rightarrow> (case parse version2 of Inl e \<Rightarrow> Inl e | Inr v2 \<Rightarrow> Inr (diff v1 v2)))"

subsubsection \<open>\<open>semver.maxSatisfying\<close>\<close>

text \<open>
  \<open>satisfies v rng\<close> stands for the test of a parsed version against the range; an
  invalid range, for which \<open>maxSatisfying\<close> returns \<open>null\<close> at once, is a range that no
  version satisfies. \<open>Range.test\<close> answers \<open>false\<close> for a string that is no version.
  The loop keeps \<open>max\<close> (here \<open>max_v\<close>) and \<open>maxSV\<close> together.
\<close>

definition maxSatisfying_step ::
  "(string \<Rightarrow> string \<Rightarrow> bool) \<Rightarrow> string \<Rightarrow> (string \<times> SemVer) option \<Rightarrow> string
     \<Rightarrow> (string \<times> SemVer) option" where
  "maxSatisfying_step satisfies rng acc v =
     (case parse v of
        Inl _ \<Rightarrow> acc
      | Inr sv \<Rightarrow>
          if \<not> satisfies v rng then acc
          else (case acc of
                  None \<Rightarrow> Some (v, sv)
                | Some (max_v, maxSV) \<Rightarrow>
                    if compare_string maxSV v = Inr (-1) then Some (v, sv) else acc))"

definition semver_maxSatisfying ::
  "(string \<Rightarrow> string \<Rightarrow> bool) \<Rightarrow> string list \<Rightarrow> string \<Rightarrow> string option" where
  "semver_maxSatisfying satisfies versions rng =
     map_option fst (foldl (maxSatisfying_step satisfies rng) None versions)"

subsection \<open>The input files and the registry\<close>

text \<open>
  \<open>package.json\<close>: three optional objects from a package name to a version range. An
  object is an association list with distinct keys, in the order in which its
  properties were created (the order of the file). \<open>package-lock.json\<close>: two
  optional objects from a key to an entry, of which the program reads the \<open>version\<close>
  field only; \<open>None\<close> is a missing field, and \<open>lock_dependencies\<close> is the field
  \<open>dependencies\<close> of the lock file.
\<close>

record packageJson =
  dependencies :: "(string \<times> string) list option"
  devDependencies :: "(string \<times> string) list option"
  peerDependencies :: "(string \<times> string) list option"

record lock_entry =
  version :: "string option"

record packageLock =
  packages :: "(string \<rightharpoonup> lock_entry) option"
  lock_dependencies :: "(string \<rightharpoonup> lock_entry) option"

text \<open>
  Both files come from \<open>JSON.parse\<close>, so their objects inherit from \<open>Object.prototype\<close>:
  \<open>obj[key]\<close> finds an own property or else, for the twelve names below, an inherited
  member (a function, and for \<open>__proto__\<close> the prototype itself). An inherited member is
  truthy, has no field \<open>version\<close>, and is no property for \<open>Object.entries\<close> or the
  spread syntax.
\<close>

definition objectPrototype_members :: "string list" where
  "objectPrototype_members =
     [''constructor'', ''__defineGetter__'', ''__defineSetter__'', ''hasOwnProperty'',
      ''__lookupGetter__'', ''__lookupSetter__'', ''isPrototypeOf'', ''propertyIsEnumerable'',
      ''toString'', ''valueOf'', ''__proto__'', ''toLocaleString'']"

datatype 'a property = Absent | Own 'a | Inherited string

definition get_prop :: "(string \<rightharpoonup> 'a) option \<Rightarrow> string \<Rightarrow> 'a property" where
  \<comment> \<open>\<open>obj?.[key]\<close>, and \<open>obj && obj[key]\<close> as far as its truth goes; \<open>Absent\<close> is
      \<open>undefined\<close>\<close>
  "get_prop obj key =
     (case obj of
        None \<Rightarrow> Absent
      | Some m \<Rightarrow>
          (case m key of
             Some v \<Rightarrow> Own v
           | None \<Rightarrow> if key \<in> set objectPrototype_members then Inherited key else Absent))"

definition range_of :: "(string \<times> string) list option \<Rightarrow> string \<Rightarrow> string property" where
  \<comment> \<open>\<open>packageJson.dependencies?.[packageName]\<close>, for one of the three categories\<close>
  "range_of category packageName = get_prop (map_option map_of category) packageName"

definition truthy :: "string property \<Rightarrow> bool" where
  \<comment> \<open>a string is truthy unless it is empty; \<open>undefined\<close> is falsy\<close>
  "truthy v = (case v of Absent \<Rightarrow> False | Own s \<Rightarrow> s \<noteq> [] | Inherited _ \<Rightarrow> True)"

definition or_js :: "string property \<Rightarrow> string property \<Rightarrow> string property" where
  \<comment> \<open>\<open>x || y\<close>\<close>
  "or_js x y = (if truthy x then x else y)"

definition inherited_text :: "string \<Rightarrow> string" where
  \<comment> \<open>an inherited member in a template string, as Node prints it\<close>
  "inherited_text member =
     (if member = ''__proto__'' then ''[object Object]''
      else ''function '' @ (if member = ''constructor'' then ''Object'' else member)
           @ ''() { [native code] }'')"

definition spread :: "(string \<times> string) list \<Rightarrow> (string \<times> string) list option \<Rightarrow> (string \<times> string) list" where
  \<comment> \<open>\<open>{ ...target, ...source }\<close>: a key that is there keeps its place and takes the new
      value, a new key goes to the end; spreading \<open>undefined\<close> adds nothing\<close>
  "spread target source =
     (case source of None \<Rightarrow> target
      | Some al \<Rightarrow> fold (\<lambda>(k, v) acc. AList.update k v acc) al target)"

definition is_array_index :: "string \<Rightarrow> bool" where
  \<comment> \<open>a canonical numeric string for an integer up to \<open>2^32 - 2\<close>\<close>
  "is_array_index key \<longleftrightarrow> numericIdentifier key \<and> nat_of_digits key \<le> 4294967294"

definition object_entries :: "(string \<times> 'a) list \<Rightarrow> (string \<times> 'a) list" where
  \<comment> \<open>\<open>Object.entries\<close> of an object whose properties were created in the order of the
      list: the array indices first, ascending, then the other keys as created\<close>
  "object_entries al =
     sort_key (\<lambda>p. nat_of_digits (fst p)) (filter (\<lambda>p. is_array_index (fst p)) al)
     @ filter (\<lambda>p. \<not> is_array_index (fst p)) al"

text \<open>
  A JSON value as far as the program looks at it: \<open>Array.isArray\<close> tells arrays from
  the rest, and \<open>semver.valid\<close> answers \<open>null\<close> for everything that is not a string.
\<close>

datatype json = JStr string | JArr "json list" | JOther

text \<open>
  What \<open>execSync(command).toString().trim()\<close> followed by \<open>JSON.parse(output)\<close> comes
  to: \<open>execSync\<close> throws (non-zero exit, timeout) with a message, or the output parses
  to a JSON value, or \<open>JSON.parse\<close> throws on the output.
\<close>

datatype exec_result = Throws string | Output_json json | Output_text string

subsection \<open>\<open>getLatestVersion\<close>\<close>

definition is_quote :: "char \<Rightarrow> bool" where
  \<comment> \<open>\<open>['"]\<close>\<close>
  "is_quote c \<longleftrightarrow> c = CHR 0x27 \<or> c = CHR 0x22"

definition is_line_terminator :: "char \<Rightarrow> bool" where
  \<comment> \<open>what \<open>.\<close> does not match, within ASCII\<close>
  "is_line_terminator c \<longleftrightarrow> c = CHR 0x0A \<or> c = CHR 0x0D"

fun lazy_group :: "string \<Rightarrow> string \<Rightarrow> string option" where
  \<comment> \<open>\<open>(.+?)['"]\<close> after the group has taken \<open>acc\<close>: the shortest extension that a quote
      follows\<close>
  "lazy_group acc [] = None"
| "lazy_group acc (d # rest) =
     (if is_quote d then Some acc
      else if is_line_terminator d then None
      else lazy_group (acc @ [d]) rest)"

fun match_here :: "string \<Rightarrow> string option" where
  \<comment> \<open>\<open>['"](.+?)['"]\<close> at the start of the string: the group, if it matches\<close>
  "match_here (q # c # rest) =
     (if is_quote q \<and> \<not> is_line_terminator c then lazy_group [c] rest else None)"
| "match_here _ = None"

fun match_quoted :: "string \<Rightarrow> string option" where
  \<comment> \<open>\<open>line.match(/['"](.+?)['"]/)?.[1]\<close>: the leftmost match\<close>
  "match_quoted [] = None"
| "match_quoted (c # cs) =
     (case match_here (c # cs) of Some g \<Rightarrow> Some g | None \<Rightarrow> match_quoted cs)"

definition string_parsing :: "string \<Rightarrow> string list" where
  \<comment> \<open>the fallback of the inner \<open>catch\<close>; \<open>filter(Boolean)\<close> drops the lines without a
      match (a group is never empty)\<close>
  "string_parsing output = List.map_filter match_quoted (split_on CHR 0x0A output)"

definition valid_json :: "json \<Rightarrow> string option" where
  \<comment> \<open>\<open>semver.valid(v)\<close> on a parsed JSON value\<close>
  "valid_json v = (case v of JStr s \<Rightarrow> semver_valid s | _ \<Rightarrow> None)"

definition validVersions_of :: "json list \<Rightarrow> string list" where
  \<comment> \<open>\<open>versions.filter((v) => semver.valid(v))\<close>; what is kept is a string\<close>
  "validVersions_of versions =
     List.map_filter (\<lambda>v. case v of JStr s \<Rightarrow> (if valid_json v \<noteq> None then Some s else None)
                               | _ \<Rightarrow> None) versions"

definition as_array :: "json \<Rightarrow> json list" where
  \<comment> \<open>\<open>Array.isArray(versions) ? versions : [versions]\<close>\<close>
  "as_array versions = (case versions of JArr vs \<Rightarrow> vs | _ \<Rightarrow> [versions])"

definition npm_show :: "string \<Rightarrow> string \<Rightarrow> string" where
  "npm_show packageName versionRange =
     ''npm show '' @ packageName @ ''@'' @ versionRange @ '' version --json''"

definition select_version ::
  "(string \<Rightarrow> string \<Rightarrow> bool) \<Rightarrow> string \<Rightarrow> string \<Rightarrow> json \<Rightarrow> string \<times> string list" where
  \<comment> \<open>lines 75 to 88: from the parsed answer to the value returned, with the warnings\<close>
  "select_version satisfies packageName versionRange versions =
     (let validVersions = validVersions_of (as_array versions)
      in if length validVersions = 0
         then (''Unable to determine'', [''No valid versions found for '' @ packageName])
         else (case semver_maxSatisfying satisfies validVersions versionRange of
                 Some m \<Rightarrow> if m \<noteq> [] then (m, []) else (last validVersions, [])
               | None \<Rightarrow> (last validVersions, [])))"

definition getLatestVersion_try ::
  "(string \<Rightarrow> exec_result) \<Rightarrow> (string \<Rightarrow> string \<Rightarrow> bool) \<Rightarrow> string \<Rightarrow> string
     \<Rightarrow> string + string \<times> string list" where
  \<comment> \<open>the \<open>try\<close> block: \<open>Inl\<close> is the message of an exception that leaves it\<close>
  "getLatestVersion_try execSync satisfies packageName versionRange =
     (case execSync (npm_show packageName versionRange) of
        Throws message \<Rightarrow> Inl message
      | Output_json versions \<Rightarrow> Inr (select_version satisfies packageName versionRange versions)
      | Output_text output \<Rightarrow>
          Inr (select_version satisfies packageName versionRange
                 (JArr (map JStr (string_parsing output)))))"

definition getLatestVersion ::
  "(string \<Rightarrow> exec_result) \<Rightarrow> (string \<Rightarrow> string \<Rightarrow> bool) \<Rightarrow> string \<Rightarrow> string
     \<Rightarrow> string \<times> string list" where
  \<comment> \<open>the value returned and the warnings written\<close>
  "getLatestVersion execSync satisfies packageName versionRange =
     (case getLatestVersion_try execSync satisfies packageName versionRange of
        Inr result \<Rightarrow> result
      | Inl message \<Rightarrow>
          (''Error fetching version'',
           [''Error fetching version for '' @ packageName @ '': '' @ message]))"

subsection \<open>\<open>getInstallableVersion\<close> and \<open>getInstalledVersion\<close>\<close>

definition getInstallableVersion ::
  "(string \<Rightarrow> exec_result) \<Rightarrow> (string \<Rightarrow> string \<Rightarrow> bool) \<Rightarrow> string \<Rightarrow> packageJson
     \<Rightarrow> string \<times> string list" where
  \<comment> \<open>an inherited member as \<open>versionRange\<close> goes into the command as its text, and
      \<open>maxSatisfying\<close> answers \<open>null\<close> for it (\<open>new Range\<close> throws, which it catches)\<close>
  "getInstallableVersion execSync satisfies packageName pj =
     (let versionRange =
            or_js (or_js (range_of (dependencies pj) packageName)
                         (range_of (devDependencies pj) packageName))
                  (range_of (peerDependencies pj) packageName)
      in case versionRange of
           Own r \<Rightarrow>
             if r \<noteq> [] then getLatestVersion execSync satisfies packageName r
             else (''Not found in package.json'',
                   [''Package '' @ packageName @ '' not found in package.json''])
         | Inherited member \<Rightarrow>
             getLatestVersion execSync (\<lambda>v rng. False) packageName (inherited_text member)
         | Absent \<Rightarrow> (''Not found in package.json'',
                      [''Package '' @ packageName @ '' not found in package.json'']))"

definition getInstalledVersion :: "string \<Rightarrow> packageLock \<Rightarrow> string option" where
  \<comment> \<open>\<open>None\<close> is \<open>undefined\<close>: what was found has no \<open>version\<close>\<close>
  "getInstalledVersion packageName lockDependencies =
     (case get_prop (packages lockDependencies) (''node_modules/'' @ packageName) of
        Own e \<Rightarrow> version e
      | Inherited _ \<Rightarrow> None
      | Absent \<Rightarrow>
          (case get_prop (lock_dependencies lockDependencies) packageName of
             Own e \<Rightarrow> version e
           | Inherited _ \<Rightarrow> None
           | Absent \<Rightarrow> Some ''Not installed''))"

subsection \<open>\<open>compareVersions\<close>\<close>

text \<open>
  A \<open>chalk\<close> call wraps a text in a style, and the template strings of the program
  concatenate such pieces: a cell is the list of its styled pieces. A row of the table
  is either the five cells of a package or the one cell with \<open>colSpan: 5\<close>.
\<close>

datatype style = Green | Yellow | Red | Cyan | Italic_gray

type_synonym styled = "(style \<times> string) list"

datatype table_row =
    Package_row string styled styled styled styled
  | Spanning_row styled nat

definition dependencyType_of :: "packageJson \<Rightarrow> string \<Rightarrow> string" where
  "dependencyType_of pj packageName =
     (if truthy (range_of (dependencies pj) packageName) then ''dependencies''
      else if truthy (range_of (devDependencies pj) packageName) then ''devDependencies''
      else if truthy (range_of (peerDependencies pj) packageName) then ''peerDependencies''
      else ''unknown'')"

definition hasInstalledChanged :: "string \<Rightarrow> string \<Rightarrow> bool" where
  "hasInstalledChanged installedVersion installableVersion \<longleftrightarrow>
     installedVersion \<noteq> installableVersion"

definition hasLatestChanged :: "string \<Rightarrow> string \<Rightarrow> bool" where
  "hasLatestChanged installedVersion latestVersion \<longleftrightarrow> installedVersion \<noteq> latestVersion"

definition template_of :: "string option \<Rightarrow> string" where
  \<comment> \<open>\<open>${diff}\<close> in a template string\<close>
  "template_of d = (case d of None \<Rightarrow> ''null'' | Some k \<Rightarrow> k)"

definition annotation :: "string \<Rightarrow> styled" where
  \<comment> \<open>\<open>chalk.italic.gray(` (${x})`)\<close>\<close>
  "annotation x = [(Italic_gray, '' ('' @ x @ '')'')]"

text \<open>
  Lines 185 to 233, for three versions that passed the validity check: the flags, the
  colours, and the push to the table. \<open>Inl\<close> is an exception thrown by \<open>semver.major\<close> or
  \<open>semver.diff\<close>, which the \<open>catch\<close> of the loop body receives; \<open>Inr None\<close> is a package
  that gets no row.
\<close>

definition isMajorChange :: "string \<Rightarrow> string \<Rightarrow> string + bool" where
  \<comment> \<open>\<open>semver.major(installedVersion) !== semver.major(latestVersion)\<close>\<close>
  "isMajorChange installedVersion latestVersion =
     (case semver_major installedVersion of Inl e \<Rightarrow> Inl e
      | Inr major_installed \<Rightarrow>
          (case semver_major latestVersion of Inl e \<Rightarrow> Inl e
           | Inr major_latest \<Rightarrow> Inr (major_installed \<noteq> major_latest)))"

definition push ::
  "bool \<Rightarrow> string \<Rightarrow> string \<Rightarrow> string \<Rightarrow> string \<Rightarrow> string
     \<Rightarrow> styled \<Rightarrow> styled \<Rightarrow> styled \<Rightarrow> table_row option" where
  \<comment> \<open>lines 225 to 233: the row that is pushed, if one is\<close>
  "push all packageName dependencyType installedVersion installableVersion latestVersion
        coloredInstalledVersion coloredInstallableVersion coloredLatestVersion =
     (if all \<or> hasLatestChanged installedVersion latestVersion
            \<or> hasInstalledChanged installedVersion installableVersion
      then Some (Package_row packageName [(Cyan, dependencyType)]
                   coloredInstalledVersion coloredInstallableVersion coloredLatestVersion)
      else None)"

definition classify_row ::
  "bool \<Rightarrow> string \<Rightarrow> string \<Rightarrow> string \<Rightarrow> string \<Rightarrow> string \<Rightarrow> string
     \<Rightarrow> string + table_row option" where
  "classify_row all packageName dependencyType versionRange
       installedVersion installableVersion latestVersion =
     (case isMajorChange installedVersion latestVersion of Inl e \<Rightarrow> Inl e
      | Inr major_change \<Rightarrow>
          if hasLatestChanged installedVersion latestVersion then
            (case semver_diff installedVersion latestVersion of Inl e \<Rightarrow> Inl e
             | Inr d \<Rightarrow>
                 Inr (push all packageName dependencyType
                        installedVersion installableVersion latestVersion
                        [(if major_change then Red else Yellow, installedVersion)]
                        ([(Yellow, installableVersion)] @ annotation versionRange)
                        ([(if major_change then Red else Yellow, latestVersion)]
                           @ annotation (template_of d))))
          else if hasInstalledChanged installedVersion installableVersion then
            (case semver_diff installedVersion installableVersion of Inl e \<Rightarrow> Inl e
             | Inr d \<Rightarrow>
                 Inr (push all packageName dependencyType
                        installedVersion installableVersion latestVersion
                        [(Yellow, installedVersion)]
                        ([(Yellow, installableVersion)] @ annotation versionRange
                           @ annotation (template_of d))
                        [(Green, latestVersion)]))
          else
            Inr (push all packageName dependencyType
                   installedVersion installableVersion latestVersion
                   [(Green, installedVersion)]
                   ([(Green, installableVersion)] @ annotation versionRange)
                   [(Green, latestVersion)]))"

definition is_valid :: "string option \<Rightarrow> bool" where
  \<comment> \<open>\<open>semver.valid(v)\<close> is truthy; \<open>undefined\<close> is not a version\<close>
  "is_valid v = (case v of None \<Rightarrow> False | Some s \<Rightarrow> semver_valid s \<noteq> None)"

text \<open>
  The body of the loop for one entry of the merged object: the warnings it writes and
  the row it pushes, if any.
\<close>

definition compareVersions_body ::
  "bool \<Rightarrow> (string \<Rightarrow> exec_result) \<Rightarrow> (string \<Rightarrow> string \<Rightarrow> bool) \<Rightarrow> packageJson \<Rightarrow> packageLock
     \<Rightarrow> string \<times> string \<Rightarrow> string list \<times> table_row option" where
  "compareVersions_body all execSync satisfies pj lock entry =
     (let packageName = fst entry; versionRange = snd entry;
          dependencyType = dependencyType_of pj packageName;
          installedVersion = getInstalledVersion packageName lock;
          (installableVersion, w1) = getInstallableVersion execSync satisfies packageName pj;
          (latestVersion, w2) = getLatestVersion execSync satisfies packageName ''latest''
      in
        if installedVersion = Some ''Unable to determine''
           \<or> installableVersion = ''Unable to determine''
           \<or> latestVersion = ''Unable to determine''
        then (w1 @ w2 @ [''Unable to determine all versions for '' @ packageName @ ''. Skipping.''],
              None)
        else if \<not> is_valid installedVersion \<or> \<not> is_valid (Some installableVersion)
                \<or> \<not> is_valid (Some latestVersion)
        then (w1 @ w2 @ [''Invalid version detected for '' @ packageName @ ''. Skipping.''], None)
        else
          (case installedVersion of
             None \<Rightarrow> (w1 @ w2, None)
           | Some iv \<Rightarrow>
               (case classify_row all packageName dependencyType versionRange
                       iv installableVersion latestVersion of
                  Inl message \<Rightarrow>
                    (w1 @ w2 @ [''Error processing package '' @ packageName @ '': '' @ message],
                     None)
                | Inr r \<Rightarrow> (w1 @ w2, r))))"

definition merged_dependencies :: "packageJson \<Rightarrow> (string \<times> string) list" where
  \<comment> \<open>\<open>Object.entries({ ...dependencies, ...devDependencies, ...peerDependencies })\<close>\<close>
  "merged_dependencies pj =
     object_entries
       (spread (spread (spread [] (dependencies pj)) (devDependencies pj))
          (peerDependencies pj))"

definition no_differences :: table_row where
  "no_differences =
     Spanning_row [(Green, ''No installable packages found. `npm ci` and `npm i` are the same.'')] 5"

record report =
  table :: "table_row list"
  warnings :: "string list"

definition compareVersions ::
  "bool \<Rightarrow> (string \<Rightarrow> exec_result) \<Rightarrow> (string \<Rightarrow> string \<Rightarrow> bool) \<Rightarrow> packageJson \<Rightarrow> packageLock
     \<Rightarrow> report" where
  \<comment> \<open>the rows of the table that is printed (below its head) and the warnings, in order\<close>
  "compareVersions all execSync satisfies pj lock =
     (let results = map (compareVersions_body all execSync satisfies pj lock)
                        (merged_dependencies pj);
          rows = List.map_filter snd results
      in \<lparr> table = (if length rows = 0 then [no_differences] else rows),
           warnings = concat (map fst results) \<rparr>)"

subsection \<open>Notions that the statements use\<close>

fun row_package :: "table_row \<Rightarrow> string option" where
  \<comment> \<open>the package a row is about; the spanning row is about none\<close>
  "row_package (Package_row packageName _ _ _ _) = Some packageName"
| "row_package (Spanning_row _ _) = None"

definition skipped_unable :: "string \<Rightarrow> string" where
  \<comment> \<open>the warning of line 171\<close>
  "skipped_unable packageName =
     ''Unable to determine all versions for '' @ packageName @ ''. Skipping.''"

definition skipped_invalid :: "string \<Rightarrow> string" where
  \<comment> \<open>the warning of line 181\<close>
  "skipped_invalid packageName = ''Invalid version detected for '' @ packageName @ ''. Skipping.''"

definition nested_entry :: "packageLock \<Rightarrow> string \<Rightarrow> lock_entry option" where
  \<comment> \<open>the entry of the current shape: \<open>packages["node_modules/<name>"]\<close>\<close>
  "nested_entry lock packageName =
     (case packages lock of None \<Rightarrow> None | Some ps \<Rightarrow> ps (''node_modules/'' @ packageName))"

definition legacy_entry :: "packageLock \<Rightarrow> string \<Rightarrow> lock_entry option" where
  \<comment> \<open>the entry of the legacy shape: \<open>dependencies[<name>]\<close>\<close>
  "legacy_entry lock packageName =
     (case lock_dependencies lock of None \<Rightarrow> None | Some ds \<Rightarrow> ds packageName)"

definition all_valid ::
  "(string \<Rightarrow> exec_result) \<Rightarrow> (string \<Rightarrow> string \<Rightarrow> bool) \<Rightarrow> packageJson \<Rightarrow> packageLock \<Rightarrow> string
     \<Rightarrow> bool" where
  \<comment> \<open>the three versions of a package all pass \<open>semver.valid\<close>\<close>
  "all_valid execSync satisfies pj lock packageName \<longleftrightarrow>
     is_valid (getInstalledVersion packageName lock)
     \<and> is_valid (Some (fst (getInstallableVersion execSync satisfies packageName pj)))
     \<and> is_valid (Some (fst (getLatestVersion execSync satisfies packageName ''latest'')))"

definition answer_list :: "exec_result \<Rightarrow> json list option" where
  \<comment> \<open>the registry answer as the list of line 76; none when \<open>execSync\<close> threw\<close>
  "answer_list answer =
     (case answer of
        Throws _ \<Rightarrow> None
      | Output_json versions \<Rightarrow> Some (as_array versions)
      | Output_text output \<Rightarrow> Some (map JStr (string_parsing output)))"

definition semver_lt :: "string \<Rightarrow> string \<Rightarrow> bool" where
  \<comment> \<open>\<open>semver.lt(a, b)\<close> on two valid versions: \<open>compare(a, b) < 0\<close>\<close>
  "semver_lt a b =
     (case parse a of Inl _ \<Rightarrow> False
      | Inr x \<Rightarrow> (case parse b of Inl _ \<Rightarrow> False | Inr y \<Rightarrow> compare x y < 0))"

definition lexically_last :: "string list \<Rightarrow> string" where
  \<comment> \<open>the entry of a non-empty list that comes last in the order of strings\<close>
  "lexically_last xs = foldl (\<lambda>m x. if string_less m x then x else m) (hd xs) (tl xs)"

subsection \<open>Scenarios\<close>

text \<open>
  The drift scenario: \<open>"foo": "^1.0.0"\<close> in the manifest, \<open>foo@1.0.0\<close> in the lock file, the
  range resolves to \<open>1.0.0\<close> and \<open>latest\<close> to \<open>2.0.0\<close>.
\<close>

definition drift_registry :: "string \<Rightarrow> exec_result" where
  "drift_registry command =
     (if command = ''npm show foo@^1.0.0 version --json'' then Output_json (JStr ''1.0.0'')
      else if command = ''npm show foo@latest version --json'' then Output_json (JStr ''2.0.0'')
      else Throws ''E404'')"

definition drift_satisfies :: "string \<Rightarrow> string \<Rightarrow> bool" where
  "drift_satisfies v rng \<longleftrightarrow> rng = ''^1.0.0'' \<and> v = ''1.0.0''"

definition drift_manifest :: packageJson where
  "drift_manifest =
     \<lparr> dependencies = Some [(''foo'', ''^1.0.0'')], devDependencies = None,
       peerDependencies = None \<rparr>"

definition drift_lock :: packageLock where
  "drift_lock =
     \<lparr> packages = Some [''node_modules/foo'' \<mapsto> \<lparr> version = Some ''1.0.0'' \<rparr>],
       lock_dependencies = None \<rparr>"

text \<open>
  The empty-diff scenario: \<open>"left-pad": "1.0.0"\<close>, pinned at \<open>1.0.0\<close>, and the registry
  resolves both the range and \<open>latest\<close> to \<open>1.0.0\<close>.
\<close>

definition leftpad_registry :: "string \<Rightarrow> exec_result" where
  "leftpad_registry command =
     (if command = ''npm show left-pad@1.0.0 version --json'' then Output_json (JStr ''1.0.0'')
      else if command = ''npm show left-pad@latest version --json'' then Output_json (JStr ''1.0.0'')
      else Throws ''E404'')"

definition leftpad_satisfies :: "string \<Rightarrow> string \<Rightarrow> bool" where
  "leftpad_satisfies v rng \<longleftrightarrow> rng = ''1.0.0'' \<and> v = ''1.0.0''"

definition leftpad_manifest :: packageJson where
  "leftpad_manifest =
     \<lparr> dependencies = Some [(''left-pad'', ''1.0.0'')], devDependencies = None,
       peerDependencies = None \<rparr>"

definition leftpad_lock :: packageLock where
  "leftpad_lock =
     \<lparr> packages = Some [''node_modules/left-pad'' \<mapsto> \<lparr> version = Some ''1.0.0'' \<rparr>],
       lock_dependencies = None \<rparr>"

text \<open>
  A lock file of the legacy shape only, one of the current shape without the package,
  and one of the legacy shape without any package.
\<close>

definition legacy_lock :: packageLock where
  "legacy_lock =
     \<lparr> packages = None, lock_dependencies = Some [''foo'' \<mapsto> \<lparr> version = Some ''1.0.0'' \<rparr>] \<rparr>"

definition empty_lock :: packageLock where
  "empty_lock = \<lparr> packages = Some Map.empty, lock_dependencies = None \<rparr>"

definition bare_legacy_lock :: packageLock where
  \<comment> \<open>the lock file \<open>{"dependencies": {}}\<close>\<close>
  "bare_legacy_lock = \<lparr> packages = None, lock_dependencies = Some Map.empty \<rparr>"

text \<open>
  A name in two categories: \<open>"foo": "^1.0.0"\<close> under \<open>dependencies\<close> and \<open>"foo": "^2.0.0"\<close>
  under \<open>devDependencies\<close>; the registry has \<open>1.5.0\<close> for the first range and \<open>2.3.0\<close> for
  the second and for \<open>latest\<close>.
\<close>

definition twice_manifest :: packageJson where
  "twice_manifest =
     \<lparr> dependencies = Some [(''foo'', ''^1.0.0'')],
       devDependencies = Some [(''foo'', ''^2.0.0'')],
       peerDependencies = None \<rparr>"

definition twice_registry :: "string \<Rightarrow> exec_result" where
  "twice_registry command =
     (if command = ''npm show foo@^1.0.0 version --json'' then Output_json (JStr ''1.5.0'')
      else if command = ''npm show foo@^2.0.0 version --json'' then Output_json (JStr ''2.3.0'')
      else if command = ''npm show foo@latest version --json'' then Output_json (JStr ''2.3.0'')
      else Throws ''E404'')"

definition twice_satisfies :: "string \<Rightarrow> string \<Rightarrow> bool" where
  "twice_satisfies v rng \<longleftrightarrow>
     (rng = ''^1.0.0'' \<and> v = ''1.5.0'') \<or> (rng = ''^2.0.0'' \<and> v = ''2.3.0'')"

text \<open>Registry answers for the resolver alone.\<close>

definition unsorted_registry :: "string \<Rightarrow> exec_result" where
  \<comment> \<open>two versions in the order of their publication\<close>
  "unsorted_registry command = Output_json (JArr [JStr ''1.9.0'', JStr ''1.10.0''])"

definition no_match :: "string \<Rightarrow> string \<Rightarrow> bool" where
  \<comment> \<open>a range that no version satisfies\<close>
  "no_match v rng \<longleftrightarrow> False"

definition garbled_registry :: "string \<Rightarrow> exec_result" where
  \<comment> \<open>an output that \<open>JSON.parse\<close> rejects\<close>
  "garbled_registry command = Output_text ''<html>Bad Gateway</html>''"

definition failing_registry :: "string \<Rightarrow> exec_result" where
  "failing_registry command = Throws ''spawnSync /bin/sh ETIMEDOUT''"

definition prefixed_lock :: packageLock where
  \<comment> \<open>a lock file whose pin is written with the prefix that \<open>semver.valid\<close> accepts\<close>
  "prefixed_lock =
     \<lparr> packages = Some [''node_modules/left-pad'' \<mapsto> \<lparr> version = Some ''v1.0.0'' \<rparr>],
       lock_dependencies = None \<rparr>"

definition newest_first_registry :: "string \<Rightarrow> exec_result" where
  \<comment> \<open>an answer with the newest version first, and two entries that are no versions\<close>
  "newest_first_registry command =
     Output_json (JArr [JStr ''1.10.0'', JStr ''next'', JOther, JStr ''1.9.0''])"

definition any_match :: "string \<Rightarrow> string \<Rightarrow> bool" where
  \<comment> \<open>a range that every version satisfies\<close>
  "any_match v rng \<longleftrightarrow> True"

subsection \<open>Notions that the proofs use\<close>

definition strings_of :: "json list \<Rightarrow> string list" where
  \<comment> \<open>the strings of a list of JSON values, in order\<close>
  "strings_of versions =
     List.map_filter (\<lambda>v. case v of JStr s \<Rightarrow> Some s | _ \<Rightarrow> None) versions"

definition lex :: "SemVer \<Rightarrow> SemVer \<Rightarrow> int" where
  \<comment> \<open>\<open>compare\<close> without its shortcut for equal version strings\<close>
  "lex a b = or_else (compareMain a b) (comparePre a b)"

definition core :: "string \<Rightarrow> string" where
  \<comment> \<open>a version string without spaces around it, the leading \<open>v\<close> and the build\<close>
  "core s = before_sep CHR ''+'' (strip_v (trim s))"

definition fields_of_core :: "string \<Rightarrow> nat \<times> nat \<times> nat \<times> ident list" where
  \<comment> \<open>what \<open>parse\<close> reads from the core of a version string\<close>
  "fields_of_core c =
     (let main = map nat_of_digits (split_on CHR ''.'' (before_sep CHR ''-'' c))
      in (main ! 0, main ! 1, main ! 2,
          case after_sep CHR ''-'' c of None \<Rightarrow> []
          | Some p \<Rightarrow> map numberify (split_on CHR ''.'' p)))"

definition allowed_char :: "char \<Rightarrow> bool" where
  \<comment> \<open>the characters of the core of a valid version string\<close>
  "allowed_char c \<longleftrightarrow> is_letterdashnumber c \<or> c = CHR ''.''"

definition best ::
  "(string \<Rightarrow> string \<Rightarrow> bool) \<Rightarrow> string \<Rightarrow> string list \<Rightarrow> (string \<times> SemVer) option \<Rightarrow> bool" where
  \<comment> \<open>the invariant of the loop of \<open>maxSatisfying\<close> after the versions \<open>seen\<close>\<close>
  "best satisfies rng seen acc \<longleftrightarrow>
     (case acc of
        None \<Rightarrow> \<forall>w \<in> set seen. \<forall>wsv. parse w = Inr wsv \<longrightarrow> \<not> satisfies w rng
      | Some (m, msv) \<Rightarrow>
          parse m = Inr msv \<and> m \<in> set seen \<and> satisfies m rng
          \<and> (\<forall>w \<in> set seen. \<forall>wsv. parse w = Inr wsv \<and> satisfies w rng \<longrightarrow> lex msv wsv \<noteq> -1))"

definition inheriting_manifest :: packageJson where
  \<comment> \<open>a development dependency whose name every object inherits\<close>
  "inheriting_manifest =
     \<lparr> dependencies = Some [(''foo'', ''^1.0.0'')],
       devDependencies = Some [(''constructor'', ''^1.0.0'')],
       peerDependencies = None \<rparr>"

section \<open>Properties\<close>

subsection \<open>Evaluating the \<open>semver\<close> functions\<close>

lemmas semver_eval =
  semver_valid_def parse_def matches_FULL_def MAX_LENGTH_def MAX_SAFE_INTEGER_def trim_def
  is_space_def strip_v_def before_sep_def after_sep_def numericIdentifier_def
  nonNumericIdentifier_def prereleaseIdentifier_def buildIdentifier_def is_digit_def
  is_letterdashnumber_def nat_of_digits_def digit_val_def numberify_def format_def
  show_nat.simps digit_char_def

lemmas compare_eval =
  compare_def format_def show_nat.simps digit_char_def or_else_def compareMain_def
  compareIdentifiers_def comparePre_def

lemma valid_iff_parse: "semver_valid v \<noteq> None \<longleftrightarrow> (\<exists>sv. parse v = Inr sv)"
  by (simp add: semver_valid_def split: sum.splits)

lemma invalid_Unable_to_determine: "semver_valid ''Unable to determine'' = None"
  by (simp add: semver_eval)

lemma invalid_Not_installed: "semver_valid ''Not installed'' = None"
  by (simp add: semver_eval)

lemma invalid_Error_fetching: "semver_valid ''Error fetching version'' = None"
  by (simp add: semver_eval)

lemma invalid_Not_found: "semver_valid ''Not found in package.json'' = None"
  by (simp add: semver_eval)

lemma parse_100:
  "parse ''1.0.0'' = Inr \<lparr>major = 1, minor = 0, patch = 0, prerelease = [], build = []\<rparr>"
  by (simp add: semver_eval)

lemma parse_v100:
  "parse ''v1.0.0'' = Inr \<lparr>major = 1, minor = 0, patch = 0, prerelease = [], build = []\<rparr>"
  by (simp add: semver_eval)

lemma parse_200:
  "parse ''2.0.0'' = Inr \<lparr>major = 2, minor = 0, patch = 0, prerelease = [], build = []\<rparr>"
  by (simp add: semver_eval)

lemma parse_150:
  "parse ''1.5.0'' = Inr \<lparr>major = 1, minor = 5, patch = 0, prerelease = [], build = []\<rparr>"
  by (simp add: semver_eval)

lemma parse_230:
  "parse ''2.3.0'' = Inr \<lparr>major = 2, minor = 3, patch = 0, prerelease = [], build = []\<rparr>"
  by (simp add: semver_eval)

lemma parse_190:
  "parse ''1.9.0'' = Inr \<lparr>major = 1, minor = 9, patch = 0, prerelease = [], build = []\<rparr>"
  by (simp add: semver_eval)

lemma parse_1100:
  "parse ''1.10.0'' = Inr \<lparr>major = 1, minor = 10, patch = 0, prerelease = [], build = []\<rparr>"
  by (simp add: semver_eval)

lemma valid_100: "semver_valid ''1.0.0'' = Some ''1.0.0''"
  by (simp add: semver_valid_def parse_100 format_def show_nat.simps digit_char_def)

lemma valid_v100: "semver_valid ''v1.0.0'' = Some ''1.0.0''"
  by (simp add: semver_valid_def parse_v100 format_def show_nat.simps digit_char_def)

lemma valid_200: "semver_valid ''2.0.0'' = Some ''2.0.0''"
  by (simp add: semver_valid_def parse_200 format_def show_nat.simps digit_char_def)

lemma valid_150: "semver_valid ''1.5.0'' = Some ''1.5.0''"
  by (simp add: semver_valid_def parse_150 format_def show_nat.simps digit_char_def)

lemma valid_230: "semver_valid ''2.3.0'' = Some ''2.3.0''"
  by (simp add: semver_valid_def parse_230 format_def show_nat.simps digit_char_def)

lemma valid_190: "semver_valid ''1.9.0'' = Some ''1.9.0''"
  by (simp add: semver_valid_def parse_190 format_def show_nat.simps digit_char_def)

lemma valid_1100: "semver_valid ''1.10.0'' = Some ''1.10.0''"
  by (simp add: semver_valid_def parse_1100 format_def show_nat.simps digit_char_def)

lemma diff_100_200: "semver_diff ''1.0.0'' ''2.0.0'' = Inr (Some ''major'')"
  by (simp add: semver_diff_def parse_100 parse_200 diff_def compare_eval)

lemma diff_100_230: "semver_diff ''1.0.0'' ''2.3.0'' = Inr (Some ''major'')"
  by (simp add: semver_diff_def parse_100 parse_230 diff_def compare_eval)

lemma diff_v100_100: "semver_diff ''v1.0.0'' ''1.0.0'' = Inr None"
  by (simp add: semver_diff_def parse_100 parse_v100 diff_def compare_eval)

subsection \<open>The body of the loop\<close>

lemma isMajorChange_parsed:
  assumes "parse locked = Inr a" and "parse latest = Inr b"
  shows "isMajorChange locked latest = Inr (major a \<noteq> major b)"
  using assms by (simp add: isMajorChange_def semver_major_def)

lemma semver_diff_parsed:
  assumes "parse x = Inr a" and "parse y = Inr b"
  shows "semver_diff x y = Inr (diff a b)"
  using assms by (simp add: semver_diff_def)

lemma classify_row_parsed:
  assumes "parse locked = Inr a" and "parse installable = Inr c" and "parse latest = Inr b"
  shows "classify_row all n t r locked installable latest =
     Inr (if hasLatestChanged locked latest then
            push all n t locked installable latest
              [(if major a \<noteq> major b then Red else Yellow, locked)]
              ([(Yellow, installable)] @ annotation r)
              ([(if major a \<noteq> major b then Red else Yellow, latest)]
                 @ annotation (template_of (diff a b)))
          else if hasInstalledChanged locked installable then
            push all n t locked installable latest
              [(Yellow, locked)]
              ([(Yellow, installable)] @ annotation r @ annotation (template_of (diff a c)))
              [(Green, latest)]
          else
            push all n t locked installable latest
              [(Green, locked)] ([(Green, installable)] @ annotation r) [(Green, latest)])"
  using assms
  by (simp add: classify_row_def isMajorChange_parsed semver_diff_parsed)

lemma push_package: "push all n t x y z c1 c2 c3 = Some row \<Longrightarrow> row_package row = Some n"
  by (auto simp: push_def split: if_splits)

lemma classify_row_package:
  "classify_row all n t r x y z = Inr (Some row) \<Longrightarrow> row_package row = Some n"
  by (auto simp: classify_row_def split: sum.splits if_splits dest: push_package)

lemma classify_row_included:
  assumes "parse locked = Inr a" and "parse installable = Inr c" and "parse latest = Inr b"
  shows "\<exists>res. classify_row all n t r locked installable latest = Inr res \<and>
           (res \<noteq> None \<longleftrightarrow>
              all \<or> hasLatestChanged locked latest \<or> hasInstalledChanged locked installable)"
  using assms by (auto simp: classify_row_parsed push_def)

lemma body_package:
  "snd (compareVersions_body all execSync satisfies pj lock entry) = Some row
     \<Longrightarrow> row_package row = Some (fst entry)"
  by (auto simp: compareVersions_body_def Let_def
      split: prod.splits if_splits option.splits sum.splits dest: classify_row_package)

lemma body_classified:
  assumes "getInstalledVersion n lock = Some locked"
    and "getInstallableVersion execSync satisfies n pj = (installable, w1)"
    and "getLatestVersion execSync satisfies n ''latest'' = (latest, w2)"
    and "semver_valid locked \<noteq> None" and "semver_valid installable \<noteq> None"
    and "semver_valid latest \<noteq> None"
  shows "\<exists>res. classify_row all n (dependencyType_of pj n) r locked installable latest = Inr res \<and>
           compareVersions_body all execSync satisfies pj lock (n, r) = (w1 @ w2, res)"
proof -
  from assms(4-6) obtain a c b where
    p: "parse locked = Inr a" "parse installable = Inr c" "parse latest = Inr b"
    using valid_iff_parse by blast
  have ne: "locked \<noteq> ''Unable to determine''" "installable \<noteq> ''Unable to determine''"
    "latest \<noteq> ''Unable to determine''"
    using assms(4-6) invalid_Unable_to_determine by auto
  from classify_row_included[OF p] obtain res where
    res: "classify_row all n (dependencyType_of pj n) r locked installable latest = Inr res"
    by blast
  show ?thesis
    using assms ne res by (simp add: compareVersions_body_def Let_def is_valid_def)
qed

lemma body_skipped:
  assumes "getInstallableVersion execSync satisfies n pj = (installable, w1)"
    and "getLatestVersion execSync satisfies n ''latest'' = (latest, w2)"
    and "\<not> (is_valid (getInstalledVersion n lock) \<and> semver_valid installable \<noteq> None
            \<and> semver_valid latest \<noteq> None)"
  shows "\<exists>m \<in> {skipped_unable n, skipped_invalid n}.
           compareVersions_body all execSync satisfies pj lock (n, r) = (w1 @ w2 @ [m], None)"
  using assms
  by (auto simp: compareVersions_body_def Let_def is_valid_def skipped_unable_def
      skipped_invalid_def)

lemma body_skipped_any:
  assumes "\<not> (is_valid (getInstalledVersion n lock)
            \<and> semver_valid (fst (getInstallableVersion execSync satisfies n pj)) \<noteq> None
            \<and> semver_valid (fst (getLatestVersion execSync satisfies n ''latest'')) \<noteq> None)"
  shows "\<exists>w. \<exists>m \<in> {skipped_unable n, skipped_invalid n}.
           compareVersions_body all execSync satisfies pj lock (n, r) = (w @ [m], None)"
proof -
  obtain installable w1 where
    g1: "getInstallableVersion execSync satisfies n pj = (installable, w1)"
    by (cases "getInstallableVersion execSync satisfies n pj")
  obtain latest w2 where g2: "getLatestVersion execSync satisfies n ''latest'' = (latest, w2)"
    by (cases "getLatestVersion execSync satisfies n ''latest''")
  from assms g1 g2 have "\<not> (is_valid (getInstalledVersion n lock)
      \<and> semver_valid installable \<noteq> None \<and> semver_valid latest \<noteq> None)" by simp
  from body_skipped[OF g1 g2 this, of all r] obtain m where
    "m \<in> {skipped_unable n, skipped_invalid n}"
    "compareVersions_body all execSync satisfies pj lock (n, r) = ((w1 @ w2) @ [m], None)"
    by auto
  then show ?thesis by blast
qed

lemma body_included:
  assumes "getInstalledVersion n lock = Some locked"
    and "fst (getInstallableVersion execSync satisfies n pj) = installable"
    and "fst (getLatestVersion execSync satisfies n ''latest'') = latest"
    and "semver_valid locked \<noteq> None" and "semver_valid installable \<noteq> None"
    and "semver_valid latest \<noteq> None"
  shows "snd (compareVersions_body all execSync satisfies pj lock (n, r)) \<noteq> None
         \<longleftrightarrow> all \<or> hasInstalledChanged locked installable \<or> hasLatestChanged locked latest"
proof -
  obtain w1 where g1: "getInstallableVersion execSync satisfies n pj = (installable, w1)"
    using assms(2) by (cases "getInstallableVersion execSync satisfies n pj") simp
  obtain w2 where g2: "getLatestVersion execSync satisfies n ''latest'' = (latest, w2)"
    using assms(3) by (cases "getLatestVersion execSync satisfies n ''latest''") simp
  from assms(4-6) obtain a c b where
    p: "parse locked = Inr a" "parse installable = Inr c" "parse latest = Inr b"
    using valid_iff_parse by blast
  from body_classified[OF assms(1) g1 g2 assms(4-6)] obtain res where
    res: "classify_row all n (dependencyType_of pj n) r locked installable latest = Inr res"
      "compareVersions_body all execSync satisfies pj lock (n, r) = (w1 @ w2, res)" by blast
  from classify_row_included[OF p, of all n "dependencyType_of pj n" r] res(1) have
    "res \<noteq> None \<longleftrightarrow>
       all \<or> hasLatestChanged locked latest \<or> hasInstalledChanged locked installable"
    by simp
  with res(2) show ?thesis by auto
qed

subsection \<open>The table\<close>

lemma in_map_filter_snd:
  "row \<in> set (List.map_filter snd (map f xs)) \<longleftrightarrow> (\<exists>e \<in> set xs. snd (f e) = Some row)"
  by (induction xs) (auto simp: List.map_filter_simps split: option.splits)

lemma table_rows:
  "set (table (compareVersions all execSync satisfies pj lock)) =
     (let rows = List.map_filter snd
                   (map (compareVersions_body all execSync satisfies pj lock)
                      (merged_dependencies pj))
      in if rows = [] then {no_differences} else set rows)"
  by (simp add: compareVersions_def Let_def)

lemma package_in_table:
  "(\<exists>row \<in> set (table (compareVersions all execSync satisfies pj lock)).
      row_package row = Some n)
   \<longleftrightarrow> (\<exists>e \<in> set (merged_dependencies pj). fst e = n \<and>
          snd (compareVersions_body all execSync satisfies pj lock e) \<noteq> None)"
  (is "?L \<longleftrightarrow> ?R")
proof
  assume ?L
  then obtain row where
    row: "row \<in> set (table (compareVersions all execSync satisfies pj lock))"
    and n: "row_package row = Some n" by blast
  have "row \<noteq> no_differences" using n by (auto simp: no_differences_def)
  with row have "row \<in> set (List.map_filter snd
      (map (compareVersions_body all execSync satisfies pj lock) (merged_dependencies pj)))"
    by (auto simp: table_rows Let_def split: if_splits)
  then obtain e where e: "e \<in> set (merged_dependencies pj)"
    "snd (compareVersions_body all execSync satisfies pj lock e) = Some row"
    by (auto simp: in_map_filter_snd)
  with body_package[OF e(2)] n show ?R by auto
next
  assume ?R
  then obtain e row where e: "e \<in> set (merged_dependencies pj)" "fst e = n"
    "snd (compareVersions_body all execSync satisfies pj lock e) = Some row" by auto
  then have in_rows: "row \<in> set (List.map_filter snd
      (map (compareVersions_body all execSync satisfies pj lock) (merged_dependencies pj)))"
    by (auto simp: in_map_filter_snd)
  then have "row \<in> set (table (compareVersions all execSync satisfies pj lock))"
    by (auto simp: table_rows Let_def)
  moreover have "row_package row = Some n" using body_package[OF e(3)] e(2) by simp
  ultimately show ?L by blast
qed

subsection \<open>The drift scenario, evaluated\<close>

lemma drift_installed: "getInstalledVersion ''foo'' drift_lock = Some ''1.0.0''"
  by (simp add: getInstalledVersion_def get_prop_def objectPrototype_members_def drift_lock_def)

lemma drift_range: "semver_maxSatisfying drift_satisfies [''1.0.0''] ''^1.0.0'' = Some ''1.0.0''"
  by (simp add: semver_maxSatisfying_def maxSatisfying_step_def parse_100 drift_satisfies_def)

lemma drift_tag: "semver_maxSatisfying drift_satisfies [''2.0.0''] ''latest'' = None"
  by (simp add: semver_maxSatisfying_def maxSatisfying_step_def parse_200 drift_satisfies_def)

lemma drift_installable:
  "getInstallableVersion drift_registry drift_satisfies ''foo'' drift_manifest = (''1.0.0'', [])"
  by (simp add: getInstallableVersion_def getLatestVersion_def getLatestVersion_try_def
      select_version_def drift_manifest_def range_of_def get_prop_def
      objectPrototype_members_def or_js_def truthy_def npm_show_def
      drift_registry_def as_array_def validVersions_of_def List.map_filter_def valid_json_def
      valid_100 drift_range)

lemma drift_latest:
  "getLatestVersion drift_registry drift_satisfies ''foo'' ''latest'' = (''2.0.0'', [])"
  by (simp add: getLatestVersion_def getLatestVersion_try_def select_version_def npm_show_def
      drift_registry_def as_array_def validVersions_of_def List.map_filter_def valid_json_def
      valid_200 drift_tag)

lemma drift_merged: "merged_dependencies drift_manifest = [(''foo'', ''^1.0.0'')]"
  by (simp add: merged_dependencies_def spread_def object_entries_def is_array_index_def
      numericIdentifier_def is_digit_def drift_manifest_def)

lemma drift_type: "dependencyType_of drift_manifest ''foo'' = ''dependencies''"
  by (simp add: dependencyType_of_def drift_manifest_def range_of_def get_prop_def truthy_def
      objectPrototype_members_def)

subsection \<open>The empty-diff scenario, evaluated\<close>

lemma leftpad_installed: "getInstalledVersion ''left-pad'' leftpad_lock = Some ''1.0.0''"
  by (simp add: getInstalledVersion_def get_prop_def objectPrototype_members_def leftpad_lock_def)

lemma prefixed_installed: "getInstalledVersion ''left-pad'' prefixed_lock = Some ''v1.0.0''"
  by (simp add: getInstalledVersion_def get_prop_def objectPrototype_members_def prefixed_lock_def)

lemma leftpad_range:
  "semver_maxSatisfying leftpad_satisfies [''1.0.0''] ''1.0.0'' = Some ''1.0.0''"
  by (simp add: semver_maxSatisfying_def maxSatisfying_step_def parse_100 leftpad_satisfies_def)

lemma leftpad_tag: "semver_maxSatisfying leftpad_satisfies [''1.0.0''] ''latest'' = None"
  by (simp add: semver_maxSatisfying_def maxSatisfying_step_def parse_100 leftpad_satisfies_def)

lemma leftpad_installable:
  "getInstallableVersion leftpad_registry leftpad_satisfies ''left-pad'' leftpad_manifest
     = (''1.0.0'', [])"
  by (simp add: getInstallableVersion_def getLatestVersion_def getLatestVersion_try_def
      select_version_def leftpad_manifest_def range_of_def get_prop_def
      objectPrototype_members_def or_js_def truthy_def npm_show_def
      leftpad_registry_def as_array_def validVersions_of_def List.map_filter_def valid_json_def
      valid_100 leftpad_range)

lemma leftpad_latest:
  "getLatestVersion leftpad_registry leftpad_satisfies ''left-pad'' ''latest'' = (''1.0.0'', [])"
  by (simp add: getLatestVersion_def getLatestVersion_try_def select_version_def npm_show_def
      leftpad_registry_def as_array_def validVersions_of_def List.map_filter_def valid_json_def
      valid_100 leftpad_tag)

lemma leftpad_merged: "merged_dependencies leftpad_manifest = [(''left-pad'', ''1.0.0'')]"
  by (simp add: merged_dependencies_def spread_def object_entries_def is_array_index_def
      numericIdentifier_def is_digit_def leftpad_manifest_def)

lemma leftpad_type: "dependencyType_of leftpad_manifest ''left-pad'' = ''dependencies''"
  by (simp add: dependencyType_of_def leftpad_manifest_def range_of_def get_prop_def truthy_def
      objectPrototype_members_def)

subsection \<open>The scenario of a name in two categories, evaluated\<close>

lemma twice_merged: "merged_dependencies twice_manifest = [(''foo'', ''^2.0.0'')]"
  by (simp add: merged_dependencies_def spread_def object_entries_def is_array_index_def
      numericIdentifier_def is_digit_def twice_manifest_def)

lemma twice_type: "dependencyType_of twice_manifest ''foo'' = ''dependencies''"
  by (simp add: dependencyType_of_def twice_manifest_def range_of_def get_prop_def truthy_def
      objectPrototype_members_def)

lemma twice_range: "semver_maxSatisfying twice_satisfies [''1.5.0''] ''^1.0.0'' = Some ''1.5.0''"
  by (simp add: semver_maxSatisfying_def maxSatisfying_step_def parse_150 twice_satisfies_def)

lemma twice_tag: "semver_maxSatisfying twice_satisfies [''2.3.0''] ''latest'' = None"
  by (simp add: semver_maxSatisfying_def maxSatisfying_step_def parse_230 twice_satisfies_def)

lemma twice_installable:
  "getInstallableVersion twice_registry twice_satisfies ''foo'' twice_manifest = (''1.5.0'', [])"
  by (simp add: getInstallableVersion_def getLatestVersion_def getLatestVersion_try_def
      select_version_def twice_manifest_def range_of_def get_prop_def
      objectPrototype_members_def or_js_def truthy_def npm_show_def
      twice_registry_def as_array_def validVersions_of_def List.map_filter_def valid_json_def
      valid_150 twice_range)

lemma twice_latest:
  "getLatestVersion twice_registry twice_satisfies ''foo'' ''latest'' = (''2.3.0'', [])"
  by (simp add: getLatestVersion_def getLatestVersion_try_def select_version_def npm_show_def
      twice_registry_def as_array_def validVersions_of_def List.map_filter_def valid_json_def
      valid_230 twice_tag)

subsection \<open>The reports of the scenarios\<close>

lemma isMajorChange_100_200: "isMajorChange ''1.0.0'' ''2.0.0'' = Inr True"
  by (simp add: isMajorChange_parsed[OF parse_100 parse_200])

lemma isMajorChange_100_230: "isMajorChange ''1.0.0'' ''2.3.0'' = Inr True"
  by (simp add: isMajorChange_parsed[OF parse_100 parse_230])

lemma isMajorChange_100_100: "isMajorChange ''1.0.0'' ''1.0.0'' = Inr False"
  by (simp add: isMajorChange_parsed[OF parse_100 parse_100])

lemma isMajorChange_v100_100: "isMajorChange ''v1.0.0'' ''1.0.0'' = Inr False"
  by (simp add: isMajorChange_parsed[OF parse_v100 parse_100])

lemma drift_body:
  "compareVersions_body all drift_registry drift_satisfies drift_manifest drift_lock
     (''foo'', ''^1.0.0'') =
   ([], Some (Package_row ''foo'' [(Cyan, ''dependencies'')] [(Red, ''1.0.0'')]
                [(Yellow, ''1.0.0''), (Italic_gray, '' (^1.0.0)'')]
                [(Red, ''2.0.0''), (Italic_gray, '' (major)'')]))"
  by (simp add: compareVersions_body_def drift_installed drift_installable drift_latest
      is_valid_def valid_100 valid_200 classify_row_def isMajorChange_100_200
      hasLatestChanged_def hasInstalledChanged_def diff_100_200 push_def annotation_def
      template_of_def drift_type)

lemma drift_report:
  "compareVersions all drift_registry drift_satisfies drift_manifest drift_lock =
     \<lparr> table = [Package_row ''foo'' [(Cyan, ''dependencies'')] [(Red, ''1.0.0'')]
                  [(Yellow, ''1.0.0''), (Italic_gray, '' (^1.0.0)'')]
                  [(Red, ''2.0.0''), (Italic_gray, '' (major)'')]],
       warnings = [] \<rparr>"
  by (simp add: compareVersions_def drift_merged drift_body List.map_filter_simps)

lemma leftpad_body:
  "compareVersions_body all leftpad_registry leftpad_satisfies leftpad_manifest leftpad_lock
     (''left-pad'', ''1.0.0'') =
   ([], if all then Some (Package_row ''left-pad'' [(Cyan, ''dependencies'')] [(Green, ''1.0.0'')]
                      [(Green, ''1.0.0''), (Italic_gray, '' (1.0.0)'')] [(Green, ''1.0.0'')])
        else None)"
  by (simp add: compareVersions_body_def leftpad_installed leftpad_installable leftpad_latest
      is_valid_def valid_100 classify_row_def isMajorChange_100_100
      hasLatestChanged_def hasInstalledChanged_def push_def annotation_def
      template_of_def leftpad_type)

lemma prefixed_body:
  "compareVersions_body False leftpad_registry leftpad_satisfies leftpad_manifest prefixed_lock
     (''left-pad'', ''1.0.0'') =
   ([], Some (Package_row ''left-pad'' [(Cyan, ''dependencies'')] [(Yellow, ''v1.0.0'')]
                [(Yellow, ''1.0.0''), (Italic_gray, '' (1.0.0)'')]
                [(Yellow, ''1.0.0''), (Italic_gray, '' (null)'')]))"
  by (simp add: compareVersions_body_def prefixed_installed leftpad_installable leftpad_latest
      is_valid_def valid_100 valid_v100 classify_row_def isMajorChange_v100_100
      hasLatestChanged_def hasInstalledChanged_def diff_v100_100 push_def annotation_def
      template_of_def leftpad_type)

lemma twice_body:
  "compareVersions_body False twice_registry twice_satisfies twice_manifest drift_lock
     (''foo'', ''^2.0.0'') =
   ([], Some (Package_row ''foo'' [(Cyan, ''dependencies'')] [(Red, ''1.0.0'')]
                [(Yellow, ''1.5.0''), (Italic_gray, '' (^2.0.0)'')]
                [(Red, ''2.3.0''), (Italic_gray, '' (major)'')]))"
  by (simp add: compareVersions_body_def drift_installed twice_installable twice_latest
      is_valid_def valid_100 valid_150 valid_230 classify_row_def isMajorChange_100_230
      hasLatestChanged_def hasInstalledChanged_def diff_100_230 push_def annotation_def
      template_of_def twice_type)

lemma drift_all_valid: "all_valid drift_registry drift_satisfies drift_manifest drift_lock ''foo''"
  by (simp add: all_valid_def is_valid_def drift_installed drift_installable drift_latest
      valid_100 valid_200)

lemma empty_lock_invalid:
  "\<not> all_valid drift_registry drift_satisfies drift_manifest empty_lock ''foo''"
  by (simp add: all_valid_def is_valid_def getInstalledVersion_def get_prop_def
      objectPrototype_members_def empty_lock_def
      invalid_Not_installed)

subsection \<open>The order of \<open>compare\<close>\<close>

lemma compareIdentifiers_Num:
  "compareIdentifiers (Num x) (Num y) = (if x = y then 0 else if x < y then -1 else 1)"
  by (simp add: compareIdentifiers_def Let_def)

lemma compareIdentifiers_same: "compareIdentifiers a a = 0"
  by (simp add: compareIdentifiers_def Let_def)

lemma string_less_irrefl: "\<not> string_less s s"
  by (induction s) auto

lemma of_char_nat_eq: "(of_char x :: nat) = of_char y \<longleftrightarrow> x = y"
  by simp

lemma string_less_trans:
  "string_less a b \<Longrightarrow> string_less b c \<Longrightarrow> string_less a c"
proof (induction a b arbitrary: c rule: string_less.induct)
  case (4 x xs y ys)
  then show ?case by (cases c) (auto)
qed (auto elim: string_less.elims)

lemma compareIdentifiers_less_iff:
  "compareIdentifiers a b = -1 \<longleftrightarrow>
     (is_numeric a \<and> is_numeric b \<and> to_number a < to_number b)
     \<or> (is_numeric a \<and> \<not> is_numeric b)
     \<or> (\<not> is_numeric a \<and> \<not> is_numeric b \<and> string_less (show_ident a) (show_ident b))"
proof (cases "is_numeric a \<and> is_numeric b")
  case True
  then show ?thesis by (simp add: compareIdentifiers_def Let_def)
next
  case False
  show ?thesis
  proof (cases "a = b")
    case True
    with False show ?thesis by (auto simp: compareIdentifiers_def Let_def string_less_irrefl)
  next
    case ne: False
    with False show ?thesis by (auto simp: compareIdentifiers_def Let_def)
  qed
qed

lemma compareIdentifiers_trans:
  "compareIdentifiers a b = -1 \<Longrightarrow> compareIdentifiers b c = -1 \<Longrightarrow> compareIdentifiers a c = -1"
  unfolding compareIdentifiers_less_iff
  by (auto dest: string_less_trans)

lemma compareIdentifiers_less_neq: "compareIdentifiers a b = -1 \<Longrightarrow> a \<noteq> b"
  by (auto simp: compareIdentifiers_same)

lemma comparePre_loop_same: "comparePre_loop xs xs = 0"
  by (induction xs) auto

lemma comparePre_loop_trans:
  "comparePre_loop xs ys = -1 \<Longrightarrow> comparePre_loop ys zs = -1 \<Longrightarrow> comparePre_loop xs zs = -1"
proof (induction xs ys arbitrary: zs rule: comparePre_loop.induct)
  case 1
  then show ?case by simp
next
  case (2 a as)
  then show ?case by simp
next
  case (3 b bs)
  then show ?case by (cases zs) auto
next
  case (4 a as b bs)
  show ?case
  proof (cases zs)
    case Nil
    with 4 show ?thesis by simp
  next
    case (Cons c cs)
    show ?thesis
    proof (cases "a = b")
      case True
      with 4 Cons show ?thesis by (auto split: if_splits)
    next
      case ab: False
      with 4(2) have l1: "compareIdentifiers a b = -1" by simp
      show ?thesis
      proof (cases "b = c")
        case True
        with ab l1 Cons show ?thesis by simp
      next
        case False
        with 4(3) Cons have l2: "compareIdentifiers b c = -1" by simp
        from compareIdentifiers_trans[OF l1 l2] have l3: "compareIdentifiers a c = -1" .
        with compareIdentifiers_less_neq[OF l3] Cons show ?thesis by simp
      qed
    qed
  qed
qed

lemma compareMain_less_iff:
  "compareMain a b = -1 \<longleftrightarrow>
     major a < major b \<or> (major a = major b \<and> (minor a < minor b
       \<or> (minor a = minor b \<and> patch a < patch b)))"
  by (auto simp: compareMain_def or_else_def compareIdentifiers_Num)

lemma compareMain_zero_iff:
  "compareMain a b = 0 \<longleftrightarrow> major a = major b \<and> minor a = minor b \<and> patch a = patch b"
  by (auto simp: compareMain_def or_else_def compareIdentifiers_Num)

lemma comparePre_less_iff:
  "comparePre a b = -1 \<longleftrightarrow>
     (prerelease a \<noteq> [] \<and> prerelease b = [])
     \<or> (prerelease a \<noteq> [] \<and> prerelease b \<noteq> []
         \<and> comparePre_loop (prerelease a) (prerelease b) = -1)"
  by (auto simp: comparePre_def)

lemma comparePre_trans:
  "comparePre a b = -1 \<Longrightarrow> comparePre b c = -1 \<Longrightarrow> comparePre a c = -1"
  unfolding comparePre_less_iff by (auto dest: comparePre_loop_trans)

lemma comparePre_cong:
  "prerelease a = prerelease a' \<Longrightarrow> prerelease b = prerelease b' \<Longrightarrow> comparePre a b = comparePre a' b'"
  by (simp add: comparePre_def)

lemma lex_less_iff:
  "lex a b = -1 \<longleftrightarrow> compareMain a b = -1 \<or> (compareMain a b = 0 \<and> comparePre a b = -1)"
  by (auto simp: lex_def or_else_def)

lemma lex_trans: "lex a b = -1 \<Longrightarrow> lex b c = -1 \<Longrightarrow> lex a c = -1"
  unfolding lex_less_iff
  apply (elim disjE conjE)
  subgoal by (auto simp: compareMain_less_iff)
  subgoal by (auto simp: compareMain_less_iff compareMain_zero_iff)
  subgoal by (auto simp: compareMain_less_iff compareMain_zero_iff)
  subgoal by (auto simp: compareMain_zero_iff dest: comparePre_trans)
  done

lemma lex_same_fields:
  "major a = major b \<Longrightarrow> minor a = minor b \<Longrightarrow> patch a = patch b \<Longrightarrow> prerelease a = prerelease b
     \<Longrightarrow> lex a b = 0"
  by (simp add: lex_def or_else_def compareMain_def compareIdentifiers_Num comparePre_def
      comparePre_loop_same)

subsection \<open>\<open>format\<close> after \<open>parse\<close>\<close>

lemma digit_roundtrip: "is_digit c \<Longrightarrow> digit_val c < 10 \<and> digit_char (digit_val c) = c"
  by (auto simp: is_digit_def digit_val_def digit_char_def)

lemma nat_of_digits_snoc: "nat_of_digits (ds @ [c]) = 10 * nat_of_digits ds + digit_val c"
  by (simp add: nat_of_digits_def)

lemma show_nat_small: "n < 10 \<Longrightarrow> show_nat n = [digit_char n]"
  by (simp add: show_nat.simps)

lemma show_nat_step:
  "0 < m \<Longrightarrow> d < 10 \<Longrightarrow> show_nat (10 * m + d) = show_nat m @ [digit_char d]"
  by (subst show_nat.simps) simp

lemma show_nat_digits:
  "ds \<noteq> [] \<Longrightarrow> list_all is_digit ds \<Longrightarrow> hd ds \<noteq> CHR ''0''
     \<Longrightarrow> 0 < nat_of_digits ds \<and> show_nat (nat_of_digits ds) = ds"
proof (induction ds rule: rev_induct)
  case Nil
  then show ?case by simp
next
  case (snoc c ds)
  from snoc.prems have c: "is_digit c" by simp
  show ?case
  proof (cases "ds = []")
    case True
    with snoc.prems have "c \<noteq> CHR ''0''" by simp
    with c have "0 < digit_val c" by (auto simp: is_digit_def digit_val_def)
    with True c digit_roundtrip[OF c] show ?thesis
      by (simp add: nat_of_digits_def show_nat_small)
  next
    case False
    with snoc have ih: "0 < nat_of_digits ds" "show_nat (nat_of_digits ds) = ds" by auto
    with digit_roundtrip[OF c] show ?thesis
      by (simp add: nat_of_digits_snoc show_nat_step)
  qed
qed

lemma show_nat_numericIdentifier:
  assumes "numericIdentifier s"
  shows "show_nat (nat_of_digits s) = s"
proof (cases "s = ''0''")
  case True
  then show ?thesis by (simp add: nat_of_digits_def digit_val_def show_nat_small digit_char_def)
next
  case False
  with assms show ?thesis using show_nat_digits[of s] by (simp add: numericIdentifier_def)
qed

lemma split_on_nonempty: "split_on c s \<noteq> []"
  by (induction s) (auto split: list.splits)

lemma join_Cons_Cons: "join sep ((x # y) # ys) = x # join sep (y # ys)"
  by (cases ys) auto

lemma join_Nil_Cons: "ys \<noteq> [] \<Longrightarrow> join sep ([] # ys) = sep @ join sep ys"
  by (cases ys) auto

lemma join_split_on: "join [c] (split_on c s) = s"
proof (induction s)
  case Nil
  then show ?case by simp
next
  case (Cons x xs)
  show ?case
  proof (cases "x = c")
    case True
    with Cons show ?thesis by (simp add: join_Nil_Cons split_on_nonempty)
  next
    case False
    obtain y ys where s: "split_on c xs = y # ys"
      using split_on_nonempty[of c xs] by (cases "split_on c xs") auto
    with False Cons show ?thesis by (simp add: join_Cons_Cons)
  qed
qed

lemma before_after_sep:
  "before_sep c s @ (case after_sep c s of None \<Rightarrow> [] | Some r \<Rightarrow> c # r) = s"
proof (cases "dropWhile (\<lambda>x. x \<noteq> c) s")
  case Nil
  with takeWhile_dropWhile_id[of "\<lambda>x. x \<noteq> c" s] have "takeWhile (\<lambda>x. x \<noteq> c) s = s"
    by simp
  then show ?thesis unfolding before_sep_def after_sep_def Nil by simp
next
  case (Cons d r)
  from hd_dropWhile[of "\<lambda>x. x \<noteq> c" s] Cons have "d = c" by auto
  with Cons takeWhile_dropWhile_id[of "\<lambda>x. x \<noteq> c" s] show ?thesis
    by (simp add: before_sep_def after_sep_def)
qed

lemma show_ident_numberify:
  assumes "prereleaseIdentifier s"
  shows "show_ident (numberify s) = s"
proof (cases "s \<noteq> [] \<and> list_all is_digit s \<and> nat_of_digits s < MAX_SAFE_INTEGER")
  case True
  with assms have "numericIdentifier s"
    by (auto simp: prereleaseIdentifier_def nonNumericIdentifier_def)
  with True show ?thesis by (simp add: numberify_def show_nat_numericIdentifier)
next
  case False
  then have "numberify s = Str s" unfolding numberify_def by (rule if_not_P)
  then show ?thesis by simp
qed

lemma parse_Inr_D:
  assumes "parse s = Inr a"
  shows "matches_FULL (strip_v (trim s))"
    and "(major a, minor a, patch a, prerelease a) = fields_of_core (core s)"
  using assms
  by (auto simp: parse_def Let_def core_def fields_of_core_def split: if_splits)

lemma length3: "length xs = 3 \<Longrightarrow> \<exists>x y z. xs = [x, y, z]"
  by (cases xs; cases "tl xs"; cases "tl (tl xs)") auto

lemma format_parse:
  assumes "parse s = Inr a"
  shows "format a = core s"
proof -
  let ?c = "core s"
  from parse_Inr_D[OF assms] have m: "matches_FULL (strip_v (trim s))"
    and f: "(major a, minor a, patch a, prerelease a) = fields_of_core ?c" by auto
  from m have len: "length (split_on CHR ''.'' (before_sep CHR ''-'' ?c)) = 3"
    and num: "list_all numericIdentifier (split_on CHR ''.'' (before_sep CHR ''-'' ?c))"
    and pre: "case after_sep CHR ''-'' ?c of None \<Rightarrow> True
              | Some p \<Rightarrow> list_all prereleaseIdentifier (split_on CHR ''.'' p)"
    by (auto simp: matches_FULL_def Let_def core_def)
  from length3[OF len] obtain x y z where
    xyz: "split_on CHR ''.'' (before_sep CHR ''-'' ?c) = [x, y, z]" by blast
  with num have n: "numericIdentifier x" "numericIdentifier y" "numericIdentifier z" by auto
  from join_split_on[of "CHR ''.''" "before_sep CHR ''-'' ?c"] xyz
  have main: "before_sep CHR ''-'' ?c = x @ ''.'' @ y @ ''.'' @ z" by simp
  from f xyz have mm: "major a = nat_of_digits x" "minor a = nat_of_digits y"
    "patch a = nat_of_digits z"
    by (simp_all add: fields_of_core_def)
  have shown: "show_nat (major a) @ ''.'' @ show_nat (minor a) @ ''.'' @ show_nat (patch a)
      = before_sep CHR ''-'' ?c"
    using n by (simp add: mm main show_nat_numericIdentifier)
  show ?thesis
  proof (cases "after_sep CHR ''-'' ?c")
    case None
    with f have "prerelease a = []" by (simp add: fields_of_core_def Let_def)
    with shown before_after_sep[of "CHR ''-''" ?c] None show ?thesis
      by (simp add: format_def)
  next
    case (Some p)
    with f have pa: "prerelease a = map numberify (split_on CHR ''.'' p)"
      by (simp add: fields_of_core_def Let_def)
    from pre Some have ids: "list_all prereleaseIdentifier (split_on CHR ''.'' p)" by simp
    then have "map show_ident (map numberify (split_on CHR ''.'' p)) = split_on CHR ''.'' p"
      by (induction "split_on CHR ''.'' p") (auto simp: show_ident_numberify list_all_iff map_idI)
    with pa have joined: "join ''.'' (map show_ident (prerelease a)) = p"
      using join_split_on[of "CHR ''.''" p] by simp
    from pa have ne: "prerelease a \<noteq> []" by (simp add: split_on_nonempty)
    have "format a =
        (show_nat (major a) @ ''.'' @ show_nat (minor a) @ ''.'' @ show_nat (patch a))
          @ ''-'' @ join ''.'' (map show_ident (prerelease a))"
      using ne by (simp add: format_def)
    also have "\<dots> = before_sep CHR ''-'' ?c @ ''-'' @ p"
      by (simp only: shown joined)
    also have "\<dots> = ?c"
      using before_after_sep[of "CHR ''-''" ?c] Some by simp
    finally show ?thesis .
  qed
qed

lemma parsed_fields:
  assumes "parse s = Inr a"
  shows "(major a, minor a, patch a, prerelease a) = fields_of_core (format a)"
  using parse_Inr_D(2)[OF assms] format_parse[OF assms] by simp

lemma same_format_lex:
  assumes "parse s = Inr a" and "parse t = Inr b" and "format a = format b"
  shows "lex a b = 0"
proof -
  from parsed_fields[OF assms(1)] parsed_fields[OF assms(2)] assms(3)
  have "(major a, minor a, patch a, prerelease a) = (major b, minor b, patch b, prerelease b)"
    by simp
  then show ?thesis by (simp add: lex_same_fields)
qed

subsection \<open>\<open>maxSatisfying\<close> returns a maximum\<close>

lemma digit_allowed: "is_digit c \<Longrightarrow> is_letterdashnumber c"
  by (auto simp: is_digit_def is_letterdashnumber_def)

lemma allowed_not_space: "allowed_char c \<Longrightarrow> \<not> is_space c"
  by (auto simp: allowed_char_def is_letterdashnumber_def is_space_def)

lemma allowed_not_plus: "allowed_char c \<Longrightarrow> c \<noteq> CHR ''+''"
  by (auto simp: allowed_char_def is_letterdashnumber_def)

lemma digit_not_v: "is_digit c \<Longrightarrow> c \<noteq> CHR ''v''"
  by (auto simp: is_digit_def)

lemma set_join: "set (join sep xs) \<subseteq> set sep \<union> (\<Union>s \<in> set xs. set s)"
  by (induction sep xs rule: join.induct) auto

lemma numericIdentifier_chars: "numericIdentifier s \<Longrightarrow> \<forall>c \<in> set s. allowed_char c"
  by (auto simp: numericIdentifier_def list_all_iff allowed_char_def digit_allowed)

lemma prereleaseIdentifier_chars: "prereleaseIdentifier s \<Longrightarrow> \<forall>c \<in> set s. allowed_char c"
  by (auto simp: prereleaseIdentifier_def nonNumericIdentifier_def numericIdentifier_def
      list_all_iff allowed_char_def digit_allowed)

lemma joined_chars:
  assumes "\<forall>s \<in> set xs. \<forall>c \<in> set s. allowed_char c"
  shows "\<forall>c \<in> set (join ''.'' xs). allowed_char c"
proof
  fix c assume "c \<in> set (join ''.'' xs)"
  with set_join[of "''.''" xs] have "c \<in> set ''.'' \<or> (\<exists>s \<in> set xs. c \<in> set s)" by auto
  with assms show "allowed_char c" by (auto simp: allowed_char_def)
qed

lemma core_shape:
  assumes "parse s = Inr a"
  shows "core s \<noteq> [] \<and> is_digit (hd (core s)) \<and> (\<forall>c \<in> set (core s). allowed_char c)"
proof -
  let ?c = "core s"
  from parse_Inr_D[OF assms] have m: "matches_FULL (strip_v (trim s))" by auto
  from m have len: "length (split_on CHR ''.'' (before_sep CHR ''-'' ?c)) = 3"
    and num: "list_all numericIdentifier (split_on CHR ''.'' (before_sep CHR ''-'' ?c))"
    and pre: "case after_sep CHR ''-'' ?c of None \<Rightarrow> True
              | Some p \<Rightarrow> list_all prereleaseIdentifier (split_on CHR ''.'' p)"
    by (auto simp: matches_FULL_def Let_def core_def)
  from length3[OF len] obtain x y z where
    xyz: "split_on CHR ''.'' (before_sep CHR ''-'' ?c) = [x, y, z]" by blast
  with num have n: "numericIdentifier x" "numericIdentifier y" "numericIdentifier z" by auto
  from join_split_on[of "CHR ''.''" "before_sep CHR ''-'' ?c"] xyz
  have main: "before_sep CHR ''-'' ?c = x @ ''.'' @ y @ ''.'' @ z" by simp
  from n(1) have x: "x \<noteq> []" "is_digit (hd x)"
    by (auto simp: numericIdentifier_def list_all_iff)
  have mainchars: "\<forall>c \<in> set (before_sep CHR ''-'' ?c). allowed_char c"
    using n numericIdentifier_chars unfolding main by (auto simp: allowed_char_def)
  have tailchars: "\<forall>c \<in> set (case after_sep CHR ''-'' ?c of None \<Rightarrow> [] | Some r \<Rightarrow> CHR ''-'' # r).
      allowed_char c"
  proof (cases "after_sep CHR ''-'' ?c")
    case None
    then show ?thesis by simp
  next
    case (Some p)
    with pre have "\<forall>s \<in> set (split_on CHR ''.'' p). \<forall>c \<in> set s. allowed_char c"
      by (auto simp: list_all_iff dest: prereleaseIdentifier_chars)
    from joined_chars[OF this] have "\<forall>c \<in> set p. allowed_char c"
      by (simp add: join_split_on)
    with Some show ?thesis by (simp add: allowed_char_def is_letterdashnumber_def)
  qed
  have dec: "?c = before_sep CHR ''-'' ?c
      @ (case after_sep CHR ''-'' ?c of None \<Rightarrow> [] | Some r \<Rightarrow> CHR ''-'' # r)"
    by (simp only: before_after_sep)
  from dec main x have "?c \<noteq> []" by (metis append_is_Nil_conv)
  moreover from dec main x have "hd ?c = hd x" by (metis append_assoc hd_append2)
  moreover have "\<forall>c \<in> set ?c. allowed_char c"
    using mainchars tailchars by (subst dec) auto
  ultimately show ?thesis using x by simp
qed

lemma dropWhile_none: "(\<forall>x \<in> set xs. \<not> P x) \<Longrightarrow> dropWhile P xs = xs"
  by (cases xs) auto

lemma core_idem:
  assumes "c \<noteq> []" and "is_digit (hd c)" and "\<forall>x \<in> set c. allowed_char x"
  shows "core c = c"
proof -
  have sp: "\<forall>x \<in> set c. \<not> is_space x" using assms(3) allowed_not_space by blast
  then have "trim c = c" by (simp add: trim_def dropWhile_none)
  moreover have "strip_v c = c"
    using assms(1,2) digit_not_v by (cases c) (auto simp: strip_v_def)
  moreover have "before_sep CHR ''+'' c = c"
    using assms(3) allowed_not_plus by (auto simp: before_sep_def takeWhile_eq_all_conv)
  ultimately show ?thesis by (simp add: core_def)
qed

lemma core_format:
  assumes "parse s = Inr a"
  shows "core (format a) = format a"
  using core_shape[OF assms] core_idem[of "core s"] format_parse[OF assms] by simp

lemma parse_format_lex:
  assumes "parse s = Inr a" and "parse (format a) = Inr b"
  shows "format b = format a"
  using format_parse[OF assms(2)] core_format[OF assms(1)] by simp

lemma compare_parsed:
  assumes "parse s = Inr a" and "parse t = Inr b"
  shows "compare a b = lex a b"
proof (cases "format b = format a")
  case True
  with same_format_lex[OF assms] show ?thesis by (simp add: compare_def)
next
  case False
  then show ?thesis by (simp add: compare_def lex_def)
qed

lemma compare_string_parsed:
  assumes "parse s = Inr a" and "parse t = Inr b"
  shows "compare_string a t = Inr (lex a b)"
proof (cases "t = format a")
  case True
  with assms(2) have "parse (format a) = Inr b" by simp
  from parse_format_lex[OF assms(1) this] have "format a = format b" by simp
  from same_format_lex[OF assms this] True show ?thesis by (simp add: compare_string_def)
next
  case False
  with assms compare_parsed[OF assms] show ?thesis by (simp add: compare_string_def)
qed

lemma lex_refl_parsed: "lex a a = 0"
  by (simp add: lex_same_fields)

lemma compareIdentifiers_range: "compareIdentifiers a b \<in> {-1, 0, 1}"
  by (simp add: compareIdentifiers_def Let_def)

lemma comparePre_loop_range: "comparePre_loop xs ys \<in> {-1, 0, 1}"
proof (induction xs ys rule: comparePre_loop.induct)
  case (4 a as b bs)
  with compareIdentifiers_range[of a b] show ?case by auto
qed simp_all

lemma lex_range: "lex a b \<in> {-1, 0, 1}"
  using compareIdentifiers_range[of "Num (major a)" "Num (major b)"]
    compareIdentifiers_range[of "Num (minor a)" "Num (minor b)"]
    compareIdentifiers_range[of "Num (patch a)" "Num (patch b)"]
    comparePre_loop_range[of "prerelease a" "prerelease b"]
  by (auto simp: lex_def or_else_def compareMain_def comparePre_def)

lemma semver_lt_parsed:
  assumes "parse s = Inr a" and "parse t = Inr b"
  shows "semver_lt s t \<longleftrightarrow> lex a b = -1"
  using assms compare_parsed[OF assms] lex_range[of a b] by (auto simp: semver_lt_def)

lemma best_step:
  assumes "best satisfies rng seen acc"
  shows "best satisfies rng (seen @ [v]) (maxSatisfying_step satisfies rng acc v)"
proof (cases "parse v")
  case (Inl e)
  with assms show ?thesis
    by (auto simp: best_def maxSatisfying_step_def split: option.splits)
next
  case (Inr vsv)
  show ?thesis
  proof (cases "satisfies v rng")
    case False
    with Inr assms show ?thesis
      by (auto simp: best_def maxSatisfying_step_def split: option.splits)
  next
    case sat: True
    show ?thesis
    proof (cases acc)
      case None
      with Inr sat assms show ?thesis
        by (auto simp: best_def maxSatisfying_step_def lex_refl_parsed)
    next
      case (Some p)
      obtain m msv where p: "p = (m, msv)" by (cases p)
      with Some assms have inv: "parse m = Inr msv" "m \<in> set seen" "satisfies m rng"
        "\<forall>w \<in> set seen. \<forall>wsv. parse w = Inr wsv \<and> satisfies w rng \<longrightarrow> lex msv wsv \<noteq> -1"
        by (auto simp: best_def)
      have cs: "compare_string msv v = Inr (lex msv vsv)"
        by (rule compare_string_parsed[OF inv(1) Inr])
      show ?thesis
      proof (cases "lex msv vsv = -1")
        case True
        have "lex vsv wsv \<noteq> -1" if "w \<in> set seen" "parse w = Inr wsv" "satisfies w rng"
          for w wsv
        proof
          assume "lex vsv wsv = -1"
          from lex_trans[OF True this] inv(4) that show False by blast
        qed
        with True Inr sat Some p cs show ?thesis
          by (auto simp: best_def maxSatisfying_step_def lex_refl_parsed)
      next
        case False
        with Inr sat Some p cs inv show ?thesis
          by (auto simp: best_def maxSatisfying_step_def)
      qed
    qed
  qed
qed

lemma best_foldl:
  "best satisfies rng xs (foldl (maxSatisfying_step satisfies rng) None xs)"
proof (induction xs rule: rev_induct)
  case Nil
  then show ?case by (simp add: best_def)
next
  case (snoc x xs)
  from best_step[OF snoc] show ?case by simp
qed

lemma maxSatisfying_None:
  "semver_maxSatisfying satisfies versions rng = None
     \<longleftrightarrow> (\<forall>w \<in> set versions. \<forall>wsv. parse w = Inr wsv \<longrightarrow> \<not> satisfies w rng)"
proof (cases "foldl (maxSatisfying_step satisfies rng) None versions")
  case None
  with best_foldl[of satisfies rng versions] show ?thesis
    by (simp add: semver_maxSatisfying_def best_def)
next
  case (Some p)
  with best_foldl[of satisfies rng versions] show ?thesis
    by (cases p) (auto simp: semver_maxSatisfying_def best_def)
qed

lemma maxSatisfying_Some:
  assumes "semver_maxSatisfying satisfies versions rng = Some m"
  shows "m \<in> set versions \<and> satisfies m rng \<and> semver_valid m \<noteq> None
    \<and> (\<forall>w \<in> set versions. satisfies w rng \<longrightarrow> \<not> semver_lt m w)"
proof -
  from assms obtain msv where
    f: "foldl (maxSatisfying_step satisfies rng) None versions = Some (m, msv)"
    by (auto simp: semver_maxSatisfying_def)
  with best_foldl[of satisfies rng versions] have inv: "parse m = Inr msv" "m \<in> set versions"
    "satisfies m rng"
    "\<forall>w \<in> set versions. \<forall>wsv. parse w = Inr wsv \<and> satisfies w rng \<longrightarrow> lex msv wsv \<noteq> -1"
    by (auto simp: best_def)
  have "\<not> semver_lt m w" if "w \<in> set versions" "satisfies w rng" for w
  proof (cases "parse w")
    case (Inl e)
    then show ?thesis by (simp add: semver_lt_def split: sum.splits)
  next
    case (Inr wsv)
    with inv(4) that have "lex msv wsv \<noteq> -1" by blast
    with semver_lt_parsed[OF inv(1) Inr] show ?thesis by simp
  qed
  with inv show ?thesis by (auto simp: semver_valid_def)
qed

subsection \<open>The resolver on an answer\<close>

lemma invalid_empty: "semver_valid [] = None"
  by (simp add: semver_eval)

lemma invalid_next: "semver_valid ''next'' = None"
  by (simp add: semver_eval)

lemma validVersions_of_filter:
  "validVersions_of versions = filter (\<lambda>s. semver_valid s \<noteq> None) (strings_of versions)"
  by (induction versions)
    (auto simp: validVersions_of_def strings_of_def valid_json_def List.map_filter_simps
      split: json.splits)

lemma validVersions_valid: "w \<in> set (validVersions_of versions) \<Longrightarrow> semver_valid w \<noteq> None"
  by (simp add: validVersions_of_filter)

lemma getLatestVersion_answered:
  assumes "answer_list (execSync (npm_show packageName versionRange)) = Some versions"
  shows "getLatestVersion execSync satisfies packageName versionRange =
     (if validVersions_of versions = []
      then (''Unable to determine'', [''No valid versions found for '' @ packageName])
      else (case semver_maxSatisfying satisfies (validVersions_of versions) versionRange of
              Some m \<Rightarrow> if m \<noteq> [] then (m, []) else (last (validVersions_of versions), [])
            | None \<Rightarrow> (last (validVersions_of versions), [])))"
  using assms
  by (auto simp: getLatestVersion_def getLatestVersion_try_def answer_list_def
      select_version_def Let_def as_array_def split: exec_result.splits)

lemma semver_lt_190_1100: "semver_lt ''1.9.0'' ''1.10.0''"
  by (simp add: semver_lt_def parse_190 parse_1100 compare_eval)

lemma string_less_1100_190: "string_less ''1.10.0'' ''1.9.0''"
  by simp

lemma unsorted_valid:
  "validVersions_of [JStr ''1.9.0'', JStr ''1.10.0''] = [''1.9.0'', ''1.10.0'']"
  by (simp add: validVersions_of_def valid_json_def List.map_filter_simps valid_190 valid_1100)

lemma newest_first_valid:
  "validVersions_of [JStr ''1.10.0'', JStr ''next'', JOther, JStr ''1.9.0'']
     = [''1.10.0'', ''1.9.0'']"
  by (simp add: validVersions_of_def valid_json_def List.map_filter_simps valid_190 valid_1100
      invalid_next)

subsection \<open>The merged object and the first category\<close>

lemma fold_update_distinct:
  "distinct (map fst target)
     \<Longrightarrow> distinct (map fst (fold (\<lambda>(k, v) acc. AList.update k v acc) al target))"
proof (induction al arbitrary: target)
  case Nil
  then show ?case by simp
next
  case (Cons p al)
  obtain k v where p: "p = (k, v)" by (cases p)
  from Cons.prems have "distinct (map fst (AList.update k v target))"
    by (rule distinct_update)
  from Cons.IH[OF this] p show ?case by simp
qed

lemma spread_distinct:
  "distinct (map fst target) \<Longrightarrow> distinct (map fst (spread target source))"
  by (cases source) (simp_all add: spread_def fold_update_distinct)

lemma object_entries_set: "set (object_entries al) = set al"
  by (auto simp: object_entries_def)

lemma object_entries_distinct:
  assumes "distinct (map fst al)"
  shows "distinct (map fst (object_entries al))"
proof -
  from assms have d: "distinct al" and i: "inj_on fst (set al)"
    by (simp_all add: distinct_map)
  have "distinct (object_entries al)"
    using d by (auto simp: object_entries_def)
  moreover have "inj_on fst (set (object_entries al))"
    using i by (simp add: object_entries_set)
  ultimately show ?thesis by (simp add: distinct_map)
qed

lemma merged_keys_distinct: "distinct (map fst (merged_dependencies pj))"
  by (simp add: merged_dependencies_def spread_distinct object_entries_distinct)

lemma first_category_wins:
  assumes "range_of (dependencies pj) n = Own r" and "r \<noteq> []"
  shows "dependencyType_of pj n = ''dependencies''"
    and "getInstallableVersion execSync satisfies n pj = getLatestVersion execSync satisfies n r"
  using assms
  by (simp_all add: dependencyType_of_def getInstallableVersion_def or_js_def truthy_def)

subsection \<open>The lock file reader\<close>

lemma node_modules_not_inherited: "''node_modules/'' @ n \<notin> set objectPrototype_members"
  by (simp add: objectPrototype_members_def)

lemma getInstalledVersion_cases:
  "getInstalledVersion n lock =
     (case nested_entry lock n of
        Some e \<Rightarrow> version e
      | None \<Rightarrow>
          (case legacy_entry lock n of
             Some e \<Rightarrow> version e
           | None \<Rightarrow>
               if lock_dependencies lock \<noteq> None \<and> n \<in> set objectPrototype_members then None
               else Some ''Not installed''))"
  using node_modules_not_inherited[of n]
  by (auto simp: getInstalledVersion_def get_prop_def nested_entry_def legacy_entry_def
      split: option.splits)

subsection \<open>Inherited members and array indices, evaluated\<close>

lemma inheriting_type: "dependencyType_of inheriting_manifest ''constructor'' = ''dependencies''"
  by (simp add: dependencyType_of_def inheriting_manifest_def range_of_def get_prop_def
      truthy_def objectPrototype_members_def)

lemma inheriting_installable:
  "getInstallableVersion execSync satisfies ''constructor'' inheriting_manifest =
     getLatestVersion execSync (\<lambda>v rng. False) ''constructor''
       ''function Object() { [native code] }''"
  by (simp add: getInstallableVersion_def inheriting_manifest_def range_of_def get_prop_def
      or_js_def truthy_def objectPrototype_members_def inherited_text_def)

lemma array_indices_first:
  "object_entries [(''b'', x), (''10'', y), (''2'', z), (''01'', w)]
     = [(''2'', z), (''10'', y), (''b'', x), (''01'', w)]"
  by (simp add: object_entries_def is_array_index_def numericIdentifier_def is_digit_def
      nat_of_digits_def digit_val_def)

subsection \<open>Claims\<close>

text \<open>
  C1. For a package of the merged manifest whose three versions are valid, the table
  has a row for it if and only if the show-all flag is set, or the installable version
  differs from the locked one, or the latest version differs from the locked one.
\<close>

theorem inclusion_rule:
  assumes "(packageName, versionRange) \<in> set (merged_dependencies pj)"
    and "getInstalledVersion packageName lock = Some locked"
    and "fst (getInstallableVersion execSync satisfies packageName pj) = installable"
    and "fst (getLatestVersion execSync satisfies packageName ''latest'') = latest"
    and "semver_valid locked \<noteq> None" and "semver_valid installable \<noteq> None"
    and "semver_valid latest \<noteq> None"
  shows "(\<exists>row \<in> set (table (compareVersions all execSync satisfies pj lock)).
            row_package row = Some packageName)
         \<longleftrightarrow> all \<or> hasInstalledChanged locked installable \<or> hasLatestChanged locked latest"
proof -
  let ?C = "all \<or> hasInstalledChanged locked installable \<or> hasLatestChanged locked latest"
  have body: "snd (compareVersions_body all execSync satisfies pj lock (packageName, r)) \<noteq> None
         \<longleftrightarrow> ?C" for r
    by (rule body_included[OF assms(2-7)])
  show ?thesis
  proof
    assume "\<exists>row \<in> set (table (compareVersions all execSync satisfies pj lock)).
            row_package row = Some packageName"
    then obtain e where e: "e \<in> set (merged_dependencies pj)" "fst e = packageName"
      "snd (compareVersions_body all execSync satisfies pj lock e) \<noteq> None"
      unfolding package_in_table by blast
    from e(2) have "e = (packageName, snd e)" by (cases e) simp
    with e(3) body[of "snd e"] show ?C by simp
  next
    assume ?C
    with body[of versionRange] have
      "snd (compareVersions_body all execSync satisfies pj lock (packageName, versionRange))
         \<noteq> None"
      by simp
    with assms(1) show "\<exists>row \<in> set (table (compareVersions all execSync satisfies pj lock)).
            row_package row = Some packageName"
      unfolding package_in_table by force
  qed
qed

theorem inclusion_rule_witness:
  "(''foo'', ''^1.0.0'') \<in> set (merged_dependencies drift_manifest)
   \<and> getInstalledVersion ''foo'' drift_lock = Some ''1.0.0''
   \<and> fst (getInstallableVersion drift_registry drift_satisfies ''foo'' drift_manifest) = ''1.0.0''
   \<and> fst (getLatestVersion drift_registry drift_satisfies ''foo'' ''latest'') = ''2.0.0''
   \<and> semver_valid ''1.0.0'' \<noteq> None \<and> semver_valid ''2.0.0'' \<noteq> None
   \<and> ((\<exists>row \<in> set (table (compareVersions False drift_registry drift_satisfies
                              drift_manifest drift_lock)).
          row_package row = Some ''foo'')
        \<longleftrightarrow> False \<or> hasInstalledChanged ''1.0.0'' ''1.0.0'' \<or> hasLatestChanged ''1.0.0'' ''2.0.0'')
   \<and> hasLatestChanged ''1.0.0'' ''2.0.0''"
proof -
  have h1: "(''foo'', ''^1.0.0'') \<in> set (merged_dependencies drift_manifest)"
    by (simp add: drift_merged)
  have h3: "fst (getInstallableVersion drift_registry drift_satisfies ''foo'' drift_manifest)
              = ''1.0.0''"
    by (simp add: drift_installable)
  have h4: "fst (getLatestVersion drift_registry drift_satisfies ''foo'' ''latest'') = ''2.0.0''"
    by (simp add: drift_latest)
  have h5: "semver_valid ''1.0.0'' \<noteq> None" by (simp add: valid_100)
  have h7: "semver_valid ''2.0.0'' \<noteq> None" by (simp add: valid_200)
  have h8: "hasLatestChanged ''1.0.0'' ''2.0.0''" by (simp add: hasLatestChanged_def)
  from inclusion_rule[OF h1 drift_installed h3 h4 h5 h5 h7, of False] h1 h3 h4 h5 h7 h8
  show ?thesis by (simp add: drift_installed)
qed

text \<open>
  C5. The code at the dependency name \<open>constructor\<close> and the lock file
  \<open>{"dependencies": {}}\<close>: neither shape has an entry for the name, and the reader
  returns \<open>undefined\<close>, not the sentinel \<open>Not installed\<close>, because
  \<open>dependencies[packageName]\<close> finds the member that the object inherits. For a name that
  no object inherits the reader returns the \<open>version\<close> field of the entry of the current
  shape, else that of the entry of the legacy shape, else the sentinel.
\<close>

theorem inherited_member_lookup:
  "nested_entry bare_legacy_lock ''constructor'' = None
   \<and> legacy_entry bare_legacy_lock ''constructor'' = None
   \<and> getInstalledVersion ''constructor'' bare_legacy_lock = None
   \<and> getInstalledVersion ''foo'' bare_legacy_lock = Some ''Not installed''
   \<and> getInstalledVersion ''foo'' legacy_lock = Some ''1.0.0''
   \<and> getInstalledVersion ''foo'' drift_lock = Some ''1.0.0''"
  by (simp add: getInstalledVersion_cases nested_entry_def legacy_entry_def bare_legacy_lock_def
      legacy_lock_def drift_lock_def objectPrototype_members_def)

text \<open>
  C10. The sentinel \<open>Not installed\<close> is not a valid version. For a package that is in
  neither shape of the lock file the reader returns it (or \<open>undefined\<close>, when the lock
  file has the legacy object and the name is one that every object inherits), which
  does not pass the validity check; the body of the loop skips the package with a
  warning and pushes no row, and the table has no row for it, whatever the show-all
  flag is.
\<close>

theorem not_installed_is_skipped:
  assumes "nested_entry lock packageName = None" and "legacy_entry lock packageName = None"
  shows "semver_valid ''Not installed'' = None
    \<and> getInstalledVersion packageName lock =
        (if lock_dependencies lock \<noteq> None \<and> packageName \<in> set objectPrototype_members
         then None else Some ''Not installed'')
    \<and> \<not> is_valid (getInstalledVersion packageName lock)
    \<and> (\<forall>versionRange.
          snd (compareVersions_body all execSync satisfies pj lock (packageName, versionRange))
            = None
          \<and> (skipped_unable packageName
                \<in> set (fst (compareVersions_body all execSync satisfies pj lock
                               (packageName, versionRange)))
              \<or> skipped_invalid packageName
                \<in> set (fst (compareVersions_body all execSync satisfies pj lock
                               (packageName, versionRange)))))
    \<and> (\<forall>row \<in> set (table (compareVersions all execSync satisfies pj lock)).
          row_package row \<noteq> Some packageName)"
proof -
  have inst: "getInstalledVersion packageName lock =
        (if lock_dependencies lock \<noteq> None \<and> packageName \<in> set objectPrototype_members
         then None else Some ''Not installed'')"
    using assms by (simp add: getInstalledVersion_cases)
  have no: "\<not> is_valid (getInstalledVersion packageName lock)"
    by (simp add: inst is_valid_def invalid_Not_installed)
  then have invalid: "\<not> (is_valid (getInstalledVersion packageName lock)
      \<and> semver_valid (fst (getInstallableVersion execSync satisfies packageName pj)) \<noteq> None
      \<and> semver_valid (fst (getLatestVersion execSync satisfies packageName ''latest'')) \<noteq> None)"
    by simp
  have body: "\<exists>w. \<exists>m \<in> {skipped_unable packageName, skipped_invalid packageName}.
      compareVersions_body all execSync satisfies pj lock (packageName, r) = (w @ [m], None)" for r
    by (rule body_skipped_any[OF invalid])
  have skipped: "snd (compareVersions_body all execSync satisfies pj lock (packageName, r)) = None
      \<and> (skipped_unable packageName
            \<in> set (fst (compareVersions_body all execSync satisfies pj lock (packageName, r)))
          \<or> skipped_invalid packageName
            \<in> set (fst (compareVersions_body all execSync satisfies pj lock (packageName, r))))"
    for r
    using body[of r] by auto
  have "\<not> (\<exists>row \<in> set (table (compareVersions all execSync satisfies pj lock)).
            row_package row = Some packageName)"
  proof
    assume "\<exists>row \<in> set (table (compareVersions all execSync satisfies pj lock)).
            row_package row = Some packageName"
    then obtain e where e: "fst e = packageName"
      "snd (compareVersions_body all execSync satisfies pj lock e) \<noteq> None"
      unfolding package_in_table by blast
    from e(1) have "e = (packageName, snd e)" by (cases e) simp
    with e(2) skipped[of "snd e"] show False by simp
  qed
  with inst no skipped show ?thesis by (simp add: invalid_Not_installed)
qed

theorem not_installed_is_skipped_witness:
  "nested_entry empty_lock ''foo'' = None \<and> legacy_entry empty_lock ''foo'' = None
   \<and> getInstalledVersion ''foo'' empty_lock = Some ''Not installed''
   \<and> snd (compareVersions_body True drift_registry drift_satisfies drift_manifest empty_lock
            (''foo'', ''^1.0.0'')) = None
   \<and> \<not> (\<exists>row \<in> set (table (compareVersions True drift_registry drift_satisfies drift_manifest
                                 empty_lock)).
          row_package row = Some ''foo'')
   \<and> nested_entry bare_legacy_lock ''constructor'' = None
   \<and> legacy_entry bare_legacy_lock ''constructor'' = None
   \<and> getInstalledVersion ''constructor'' bare_legacy_lock = None
   \<and> snd (compareVersions_body True drift_registry drift_satisfies drift_manifest
            bare_legacy_lock (''constructor'', ''^1.0.0'')) = None"
proof -
  have c: "nested_entry empty_lock ''foo'' = None" "legacy_entry empty_lock ''foo'' = None"
    by (simp_all add: nested_entry_def legacy_entry_def empty_lock_def)
  have d: "nested_entry bare_legacy_lock ''constructor'' = None"
    "legacy_entry bare_legacy_lock ''constructor'' = None"
    by (simp_all add: nested_entry_def legacy_entry_def bare_legacy_lock_def)
  have e: "lock_dependencies empty_lock = None" "lock_dependencies bare_legacy_lock \<noteq> None"
    "''constructor'' \<in> set objectPrototype_members"
    by (simp_all add: empty_lock_def bare_legacy_lock_def objectPrototype_members_def)
  from not_installed_is_skipped[OF c, of True drift_registry drift_satisfies drift_manifest] e
  have 1: "getInstalledVersion ''foo'' empty_lock = Some ''Not installed''
    \<and> snd (compareVersions_body True drift_registry drift_satisfies drift_manifest empty_lock
            (''foo'', ''^1.0.0'')) = None
    \<and> \<not> (\<exists>row \<in> set (table (compareVersions True drift_registry drift_satisfies
                                  drift_manifest empty_lock)).
          row_package row = Some ''foo'')"
    by simp
  from not_installed_is_skipped[OF d, of True drift_registry drift_satisfies drift_manifest] e
  have 2: "getInstalledVersion ''constructor'' bare_legacy_lock = None
    \<and> snd (compareVersions_body True drift_registry drift_satisfies drift_manifest
            bare_legacy_lock (''constructor'', ''^1.0.0'')) = None"
    by simp
  from c d 1 2 show ?thesis by simp
qed

text \<open>
  C6. A row of the table is about a package whose three versions are all valid. A
  package of the manifest with a version that is not valid (each of the four sentinels
  is such a value) is skipped by the body of the loop, which writes one of the two
  skip warnings and pushes no row; the show-all flag plays no part in this.
\<close>

theorem only_validated_rows:
  "(\<forall>row \<in> set (table (compareVersions all execSync satisfies pj lock)).
      \<forall>n. row_package row = Some n \<longrightarrow> all_valid execSync satisfies pj lock n)
   \<and> (\<forall>entry \<in> set (merged_dependencies pj).
        \<not> all_valid execSync satisfies pj lock (fst entry) \<longrightarrow>
          snd (compareVersions_body all execSync satisfies pj lock entry) = None
          \<and> (skipped_unable (fst entry)
                \<in> set (warnings (compareVersions all execSync satisfies pj lock))
              \<or> skipped_invalid (fst entry)
                \<in> set (warnings (compareVersions all execSync satisfies pj lock))))
   \<and> semver_valid ''Not installed'' = None
   \<and> semver_valid ''Unable to determine'' = None
   \<and> semver_valid ''Error fetching version'' = None
   \<and> semver_valid ''Not found in package.json'' = None"
proof -
  have skip: "\<exists>w. \<exists>m \<in> {skipped_unable (fst e), skipped_invalid (fst e)}.
      compareVersions_body all execSync satisfies pj lock e = (w @ [m], None)"
    if "\<not> all_valid execSync satisfies pj lock (fst e)" for e
  proof -
    from that have "\<not> (is_valid (getInstalledVersion (fst e) lock)
      \<and> semver_valid (fst (getInstallableVersion execSync satisfies (fst e) pj)) \<noteq> None
      \<and> semver_valid (fst (getLatestVersion execSync satisfies (fst e) ''latest'')) \<noteq> None)"
      by (simp add: all_valid_def is_valid_def)
    from body_skipped_any[OF this, of all "snd e"] show ?thesis by simp
  qed
  have rows: "all_valid execSync satisfies pj lock n"
    if "row \<in> set (table (compareVersions all execSync satisfies pj lock))"
      and "row_package row = Some n" for row n
  proof (rule ccontr)
    assume bad: "\<not> all_valid execSync satisfies pj lock n"
    from that obtain e where e: "fst e = n"
      "snd (compareVersions_body all execSync satisfies pj lock e) \<noteq> None"
      using package_in_table[of all execSync satisfies pj lock n] by blast
    from skip[of e] bad e(1) have
      "snd (compareVersions_body all execSync satisfies pj lock e) = None" by auto
    with e(2) show False by simp
  qed
  have warned: "snd (compareVersions_body all execSync satisfies pj lock e) = None
      \<and> (skipped_unable (fst e) \<in> set (warnings (compareVersions all execSync satisfies pj lock))
          \<or> skipped_invalid (fst e)
              \<in> set (warnings (compareVersions all execSync satisfies pj lock)))"
    if "e \<in> set (merged_dependencies pj)" and "\<not> all_valid execSync satisfies pj lock (fst e)"
    for e
  proof -
    from skip[OF that(2)] obtain w m where
      m: "m \<in> {skipped_unable (fst e), skipped_invalid (fst e)}"
      and b: "compareVersions_body all execSync satisfies pj lock e = (w @ [m], None)" by blast
    from b that(1) have "m \<in> set (warnings (compareVersions all execSync satisfies pj lock))"
      by (force simp: compareVersions_def Let_def)
    with m b show ?thesis by auto
  qed
  from rows warned show ?thesis
    by (simp add: invalid_Not_installed invalid_Unable_to_determine invalid_Error_fetching
        invalid_Not_found)
qed

theorem only_validated_rows_witness:
  "Package_row ''foo'' [(Cyan, ''dependencies'')] [(Red, ''1.0.0'')]
       [(Yellow, ''1.0.0''), (Italic_gray, '' (^1.0.0)'')]
       [(Red, ''2.0.0''), (Italic_gray, '' (major)'')]
     \<in> set (table (compareVersions False drift_registry drift_satisfies drift_manifest drift_lock))
   \<and> all_valid drift_registry drift_satisfies drift_manifest drift_lock ''foo''
   \<and> (''foo'', ''^1.0.0'') \<in> set (merged_dependencies drift_manifest)
   \<and> \<not> all_valid drift_registry drift_satisfies drift_manifest empty_lock ''foo''
   \<and> snd (compareVersions_body True drift_registry drift_satisfies drift_manifest empty_lock
            (''foo'', ''^1.0.0'')) = None
   \<and> (skipped_unable ''foo''
         \<in> set (warnings (compareVersions True drift_registry drift_satisfies drift_manifest
                            empty_lock))
       \<or> skipped_invalid ''foo''
         \<in> set (warnings (compareVersions True drift_registry drift_satisfies drift_manifest
                            empty_lock)))"
proof -
  let ?row = "Package_row ''foo'' [(Cyan, ''dependencies'')] [(Red, ''1.0.0'')]
       [(Yellow, ''1.0.0''), (Italic_gray, '' (^1.0.0)'')]
       [(Red, ''2.0.0''), (Italic_gray, '' (major)'')]"
  have r: "?row \<in> set (table (compareVersions False drift_registry drift_satisfies
                                drift_manifest drift_lock))"
    by (simp add: drift_report)
  have p: "row_package ?row = Some ''foo''" by simp
  have m: "(''foo'', ''^1.0.0'') \<in> set (merged_dependencies drift_manifest)"
    by (simp add: drift_merged)
  from only_validated_rows[of False drift_registry drift_satisfies drift_manifest drift_lock]
    r p
  have 1: "all_valid drift_registry drift_satisfies drift_manifest drift_lock ''foo''"
    by blast
  from only_validated_rows[of True drift_registry drift_satisfies drift_manifest empty_lock]
    m empty_lock_invalid
  have 2: "snd (compareVersions_body True drift_registry drift_satisfies drift_manifest
                  empty_lock (''foo'', ''^1.0.0'')) = None
    \<and> (skipped_unable ''foo''
         \<in> set (warnings (compareVersions True drift_registry drift_satisfies drift_manifest
                            empty_lock))
       \<or> skipped_invalid ''foo''
         \<in> set (warnings (compareVersions True drift_registry drift_satisfies drift_manifest
                            empty_lock)))"
    by fastforce
  from r 1 m empty_lock_invalid 2 show ?thesis by blast
qed

text \<open>
  C7. For three valid versions the row is coloured by precedence. When the latest
  version differs from the locked one, the locked and the latest cell are red if the
  major numbers differ and yellow otherwise, and the latest cell carries
  \<open>semver.diff(locked, latest)\<close>. Otherwise, when the installable version differs from
  the locked one, the locked and the installable cell are yellow and the installable
  cell carries \<open>semver.diff(locked, installable)\<close>. Otherwise all three cells are green
  and no cell carries a diff.
\<close>

theorem precedence_rule:
  assumes "semver_valid locked \<noteq> None" and "semver_valid installable \<noteq> None"
    and "semver_valid latest \<noteq> None"
  shows "\<exists>major_change. isMajorChange locked latest = Inr major_change \<and>
    (hasLatestChanged locked latest \<longrightarrow>
       (\<exists>d. semver_diff locked latest = Inr d \<and>
            classify_row all n t r locked installable latest =
              Inr (push all n t locked installable latest
                     [(if major_change then Red else Yellow, locked)]
                     ([(Yellow, installable)] @ annotation r)
                     ([(if major_change then Red else Yellow, latest)]
                        @ annotation (template_of d))))) \<and>
    (\<not> hasLatestChanged locked latest \<and> hasInstalledChanged locked installable \<longrightarrow>
       (\<exists>d. semver_diff locked installable = Inr d \<and>
            classify_row all n t r locked installable latest =
              Inr (push all n t locked installable latest
                     [(Yellow, locked)]
                     ([(Yellow, installable)] @ annotation r @ annotation (template_of d))
                     [(Green, latest)]))) \<and>
    (\<not> hasLatestChanged locked latest \<and> \<not> hasInstalledChanged locked installable \<longrightarrow>
       classify_row all n t r locked installable latest =
         Inr (push all n t locked installable latest
                [(Green, locked)] ([(Green, installable)] @ annotation r) [(Green, latest)]))"
proof -
  from assms obtain a c b where
    p: "parse locked = Inr a" "parse installable = Inr c" "parse latest = Inr b"
    using valid_iff_parse by blast
  show ?thesis
    by (simp add: isMajorChange_parsed[OF p(1) p(3)] semver_diff_parsed[OF p(1) p(3)]
        semver_diff_parsed[OF p(1) p(2)] classify_row_parsed[OF p])
qed

theorem precedence_rule_witness:
  "semver_valid ''1.0.0'' \<noteq> None \<and> semver_valid ''2.0.0'' \<noteq> None
   \<and> hasLatestChanged ''1.0.0'' ''2.0.0''
   \<and> classify_row False ''foo'' ''dependencies'' ''^1.0.0'' ''1.0.0'' ''1.0.0'' ''2.0.0'' =
       Inr (Some (Package_row ''foo'' [(Cyan, ''dependencies'')] [(Red, ''1.0.0'')]
                    [(Yellow, ''1.0.0''), (Italic_gray, '' (^1.0.0)'')]
                    [(Red, ''2.0.0''), (Italic_gray, '' (major)'')]))"
proof -
  have v1: "semver_valid ''1.0.0'' \<noteq> None" by (simp add: valid_100)
  have v2: "semver_valid ''2.0.0'' \<noteq> None" by (simp add: valid_200)
  have ch: "hasLatestChanged ''1.0.0'' ''2.0.0''" by (simp add: hasLatestChanged_def)
  from precedence_rule[OF v1 v1 v2, of False "''foo''" "''dependencies''" "''^1.0.0''"] ch
  have "classify_row False ''foo'' ''dependencies'' ''^1.0.0'' ''1.0.0'' ''1.0.0'' ''2.0.0'' =
      Inr (push False ''foo'' ''dependencies'' ''1.0.0'' ''1.0.0'' ''2.0.0''
             [(Red, ''1.0.0'')] ([(Yellow, ''1.0.0'')] @ annotation ''^1.0.0'')
             ([(Red, ''2.0.0'')] @ annotation (template_of (Some ''major''))))"
    by (auto simp: isMajorChange_100_200 diff_100_200)
  with v1 v2 ch show ?thesis
    by (simp add: push_def annotation_def template_of_def)
qed

text \<open>
  C2, as stated, fails: the flags compare the strings as they were read and resolved,
  not their normalised forms. A lock file that pins \<open>v1.0.0\<close> against a registry that
  answers \<open>1.0.0\<close> gives two versions with the same normalised form, both flags set,
  and a row in the table.
\<close>

theorem changed_flags_counterexample:
  "semver_valid ''v1.0.0'' = Some ''1.0.0'' \<and> semver_valid ''1.0.0'' = Some ''1.0.0''
   \<and> hasInstalledChanged ''v1.0.0'' ''1.0.0'' \<and> hasLatestChanged ''v1.0.0'' ''1.0.0''
   \<and> table (compareVersions False leftpad_registry leftpad_satisfies leftpad_manifest
              prefixed_lock) =
       [Package_row ''left-pad'' [(Cyan, ''dependencies'')] [(Yellow, ''v1.0.0'')]
          [(Yellow, ''1.0.0''), (Italic_gray, '' (1.0.0)'')]
          [(Yellow, ''1.0.0''), (Italic_gray, '' (null)'')]]"
  by (simp add: valid_v100 valid_100 hasInstalledChanged_def hasLatestChanged_def
      compareVersions_def leftpad_merged prefixed_body List.map_filter_simps)

text \<open>
  C2, amended. For valid versions, each changed flag is the inequality of the two
  strings as they stand; a flag that is false therefore also means equal normalised
  forms. The major flag is the inequality of the two major numbers.
\<close>

theorem changed_flags:
  assumes "semver_valid locked \<noteq> None" and "semver_valid installable \<noteq> None"
    and "semver_valid latest \<noteq> None"
  shows "(hasInstalledChanged locked installable \<longleftrightarrow> installable \<noteq> locked)
    \<and> (hasLatestChanged locked latest \<longleftrightarrow> locked \<noteq> latest)
    \<and> (\<not> hasInstalledChanged locked installable \<longrightarrow>
          semver_valid installable = semver_valid locked)
    \<and> (\<not> hasLatestChanged locked latest \<longrightarrow> semver_valid latest = semver_valid locked)
    \<and> (\<exists>a b. semver_major locked = Inr a \<and> semver_major latest = Inr b
          \<and> isMajorChange locked latest = Inr (a \<noteq> b))"
proof -
  from assms obtain a b where p: "parse locked = Inr a" "parse latest = Inr b"
    using valid_iff_parse by blast
  then have "semver_major locked = Inr (major a)" "semver_major latest = Inr (major b)"
    by (simp_all add: semver_major_def)
  with isMajorChange_parsed[OF p] show ?thesis
    by (auto simp: hasInstalledChanged_def hasLatestChanged_def)
qed

theorem changed_flags_witness:
  "semver_valid ''1.0.0'' \<noteq> None \<and> semver_valid ''2.0.0'' \<noteq> None
   \<and> \<not> hasInstalledChanged ''1.0.0'' ''1.0.0'' \<and> hasLatestChanged ''1.0.0'' ''2.0.0''
   \<and> semver_major ''1.0.0'' = Inr 1 \<and> semver_major ''2.0.0'' = Inr 2
   \<and> isMajorChange ''1.0.0'' ''2.0.0'' = Inr True"
proof -
  have v1: "semver_valid ''1.0.0'' \<noteq> None" by (simp add: valid_100)
  have v2: "semver_valid ''2.0.0'' \<noteq> None" by (simp add: valid_200)
  have m: "semver_major ''1.0.0'' = Inr 1" "semver_major ''2.0.0'' = Inr 2"
    by (simp_all add: semver_major_def parse_100 parse_200)
  from changed_flags[OF v1 v1 v2] v1 v2 m show ?thesis by auto
qed

text \<open>
  C8. When the body of the loop pushes no row for any entry, the table is exactly the
  synthetic row. In particular this is so, with the show-all flag at its default (off),
  for a manifest with one dependency whose locked, installable and latest versions are
  the same string.
\<close>

theorem no_differences_row:
  "((\<forall>entry \<in> set (merged_dependencies pj).
       snd (compareVersions_body all execSync satisfies pj lock entry) = None) \<longrightarrow>
      table (compareVersions all execSync satisfies pj lock) = [no_differences])
   \<and> (\<not> all \<and> merged_dependencies pj = [(n, r)]
        \<and> getInstalledVersion n lock = Some v
        \<and> fst (getInstallableVersion execSync satisfies n pj) = v
        \<and> fst (getLatestVersion execSync satisfies n ''latest'') = v \<longrightarrow>
      table (compareVersions all execSync satisfies pj lock) = [no_differences])"
proof -
  have none: "table (compareVersions all execSync satisfies pj lock) = [no_differences]"
    if "\<forall>entry \<in> set (merged_dependencies pj).
       snd (compareVersions_body all execSync satisfies pj lock entry) = None"
  proof -
    have "set (List.map_filter snd (map (compareVersions_body all execSync satisfies pj lock)
                (merged_dependencies pj))) = {}"
      using that in_map_filter_snd[of _ "compareVersions_body all execSync satisfies pj lock"
          "merged_dependencies pj"]
      by (metis all_not_in_conv option.distinct(1))
    then show ?thesis by (simp add: compareVersions_def Let_def)
  qed
  have same: "snd (compareVersions_body all execSync satisfies pj lock (n, r)) = None"
    if "\<not> all" "getInstalledVersion n lock = Some v"
      "fst (getInstallableVersion execSync satisfies n pj) = v"
      "fst (getLatestVersion execSync satisfies n ''latest'') = v"
  proof (cases "semver_valid v = None")
    case True
    with that have "\<not> (is_valid (getInstalledVersion n lock)
            \<and> semver_valid (fst (getInstallableVersion execSync satisfies n pj)) \<noteq> None
            \<and> semver_valid (fst (getLatestVersion execSync satisfies n ''latest'')) \<noteq> None)"
      by simp
    from body_skipped_any[OF this, of all r] show ?thesis by auto
  next
    case False
    from body_included[OF that(2-4) False False False, of all r] that(1)
    show ?thesis by (simp add: hasInstalledChanged_def hasLatestChanged_def)
  qed
  have one: "table (compareVersions all execSync satisfies pj lock) = [no_differences]"
    if "\<not> all" "merged_dependencies pj = [(n, r)]" "getInstalledVersion n lock = Some v"
      "fst (getInstallableVersion execSync satisfies n pj) = v"
      "fst (getLatestVersion execSync satisfies n ''latest'') = v"
  proof (rule none)
    show "\<forall>entry \<in> set (merged_dependencies pj).
       snd (compareVersions_body all execSync satisfies pj lock entry) = None"
      using same[OF that(1,3,4,5)] that(2) by simp
  qed
  from none one show ?thesis by blast
qed

theorem no_differences_row_witness:
  "merged_dependencies leftpad_manifest = [(''left-pad'', ''1.0.0'')]
   \<and> getInstalledVersion ''left-pad'' leftpad_lock = Some ''1.0.0''
   \<and> fst (getInstallableVersion leftpad_registry leftpad_satisfies ''left-pad'' leftpad_manifest)
       = ''1.0.0''
   \<and> fst (getLatestVersion leftpad_registry leftpad_satisfies ''left-pad'' ''latest'') = ''1.0.0''
   \<and> table (compareVersions False leftpad_registry leftpad_satisfies leftpad_manifest
              leftpad_lock) = [no_differences]"
proof -
  have h: "fst (getInstallableVersion leftpad_registry leftpad_satisfies ''left-pad''
                  leftpad_manifest) = ''1.0.0''"
    "fst (getLatestVersion leftpad_registry leftpad_satisfies ''left-pad'' ''latest'') = ''1.0.0''"
    by (simp_all add: leftpad_installable leftpad_latest)
  from no_differences_row[of leftpad_manifest False leftpad_registry leftpad_satisfies
      leftpad_lock "''left-pad''" "''1.0.0''" "''1.0.0''"] leftpad_merged leftpad_installed h
  show ?thesis by simp
qed

text \<open>
  C9. The code at a manifest that has \<open>foo\<close> under \<open>dependencies\<close> with \<open>^1.0.0\<close> and under
  \<open>devDependencies\<close> with \<open>^2.0.0\<close>: the package is processed once and attributed to
  \<open>dependencies\<close>, and its installable version \<open>1.5.0\<close> is resolved from \<open>^1.0.0\<close>, the
  range of the first category; the range that the merged object holds and the row
  shows is \<open>^2.0.0\<close>, the range of the last category.
\<close>

theorem twice_declared_row:
  "merged_dependencies twice_manifest = [(''foo'', ''^2.0.0'')]
   \<and> getInstallableVersion twice_registry twice_satisfies ''foo'' twice_manifest = (''1.5.0'', [])
   \<and> table (compareVersions False twice_registry twice_satisfies twice_manifest drift_lock) =
       [Package_row ''foo'' [(Cyan, ''dependencies'')] [(Red, ''1.0.0'')]
          [(Yellow, ''1.5.0''), (Italic_gray, '' (^2.0.0)'')]
          [(Red, ''2.3.0''), (Italic_gray, '' (major)'')]]"
  by (simp add: twice_merged twice_installable compareVersions_def twice_body)

text \<open>
  C4, as stated, fails for an output that \<open>JSON.parse\<close> rejects: the resolver reads it
  line by line for quoted strings, and with none of them a valid version it returns
  the sentinel \<open>Unable to determine\<close>, not \<open>Error fetching version\<close>.
\<close>

theorem resolver_counterexample:
  "getLatestVersion garbled_registry no_match ''foo'' ''^1.0.0'' =
     (''Unable to determine'', [''No valid versions found for foo''])"
  by (simp add: getLatestVersion_def getLatestVersion_try_def garbled_registry_def
      select_version_def as_array_def string_parsing_def List.map_filter_simps is_quote_def
      validVersions_of_def)

text \<open>
  C4, amended. Only \<open>execSync\<close> throws inside the resolver, and the resolver catches it:
  it returns \<open>Error fetching version\<close> and warns with the message. When the registry
  answered, in JSON or not, the resolver returns what the \<open>try\<close> block returns, and
  with an empty filtered list that is \<open>Unable to determine\<close> with a warning.
\<close>

theorem resolver_never_raises:
  "(\<forall>message. execSync (npm_show packageName versionRange) = Throws message \<longrightarrow>
      getLatestVersion_try execSync satisfies packageName versionRange = Inl message
      \<and> getLatestVersion execSync satisfies packageName versionRange =
          (''Error fetching version'',
           [''Error fetching version for '' @ packageName @ '': '' @ message]))
   \<and> (\<forall>versions. answer_list (execSync (npm_show packageName versionRange)) = Some versions \<longrightarrow>
        getLatestVersion_try execSync satisfies packageName versionRange =
          Inr (getLatestVersion execSync satisfies packageName versionRange)
        \<and> (validVersions_of versions = [] \<longrightarrow>
             getLatestVersion execSync satisfies packageName versionRange =
               (''Unable to determine'', [''No valid versions found for '' @ packageName])))"
  by (auto simp: getLatestVersion_def getLatestVersion_try_def answer_list_def
      select_version_def as_array_def split: exec_result.splits)

theorem resolver_never_raises_witness:
  "failing_registry (npm_show ''foo'' ''^1.0.0'') = Throws ''spawnSync /bin/sh ETIMEDOUT''
   \<and> getLatestVersion failing_registry no_match ''foo'' ''^1.0.0'' =
       (''Error fetching version'',
        [''Error fetching version for foo: spawnSync /bin/sh ETIMEDOUT''])
   \<and> answer_list (garbled_registry (npm_show ''foo'' ''^1.0.0'')) = Some []
   \<and> validVersions_of [] = []
   \<and> getLatestVersion garbled_registry no_match ''foo'' ''^1.0.0'' =
       (''Unable to determine'', [''No valid versions found for foo''])"
proof -
  have t: "failing_registry (npm_show ''foo'' ''^1.0.0'') = Throws ''spawnSync /bin/sh ETIMEDOUT''"
    by (simp add: failing_registry_def)
  have a: "answer_list (garbled_registry (npm_show ''foo'' ''^1.0.0'')) = Some []"
    by (simp add: answer_list_def garbled_registry_def string_parsing_def
        List.map_filter_simps is_quote_def)
  have v: "validVersions_of [] = []"
    by (simp add: validVersions_of_def List.map_filter_simps)
  from resolver_never_raises[of failing_registry "''foo''" "''^1.0.0''" no_match] t
  have 1: "getLatestVersion failing_registry no_match ''foo'' ''^1.0.0'' =
       (''Error fetching version'',
        [''Error fetching version for foo: spawnSync /bin/sh ETIMEDOUT''])"
    by simp
  from resolver_never_raises[of garbled_registry "''foo''" "''^1.0.0''" no_match] a v
  have 2: "getLatestVersion garbled_registry no_match ''foo'' ''^1.0.0'' =
       (''Unable to determine'', [''No valid versions found for foo''])"
    by simp
  from t a v 1 2 show ?thesis by simp
qed

text \<open>
  C3, as stated, fails in its last part: when no candidate satisfies the range, the
  resolver returns the entry at the end of the filtered list, which need not be the
  last one in the order of strings. For the answer \<open>["1.9.0", "1.10.0"]\<close> and a range
  that nothing satisfies it returns \<open>1.10.0\<close>, and \<open>1.9.0\<close> is lexically last.
\<close>

theorem resolver_selection_counterexample:
  "validVersions_of [JStr ''1.9.0'', JStr ''1.10.0''] = [''1.9.0'', ''1.10.0'']
   \<and> getLatestVersion unsorted_registry no_match ''foo'' ''latest'' = (''1.10.0'', [])
   \<and> lexically_last [''1.9.0'', ''1.10.0''] = ''1.9.0''
   \<and> string_less ''1.10.0'' ''1.9.0''"
proof -
  have a: "answer_list (unsorted_registry (npm_show ''foo'' ''latest''))
             = Some [JStr ''1.9.0'', JStr ''1.10.0'']"
    by (simp add: answer_list_def unsorted_registry_def as_array_def)
  have n: "semver_maxSatisfying no_match [''1.9.0'', ''1.10.0''] ''latest'' = None"
    by (simp add: maxSatisfying_None no_match_def)
  have "getLatestVersion unsorted_registry no_match ''foo'' ''latest'' = (''1.10.0'', [])"
    by (simp add: getLatestVersion_answered[where execSync=unsorted_registry, OF a]
        unsorted_valid n)
  moreover have "lexically_last [''1.9.0'', ''1.10.0''] = ''1.9.0''"
    by (simp add: lexically_last_def)
  ultimately show ?thesis by (simp add: unsorted_valid)
qed

text \<open>
  C3, amended. For an answer of the registry, taken as a list, the filtered list keeps
  the strings that are valid versions, in order. When it is not empty, the resolver
  returns without a warning: if some candidate satisfies the range, a candidate that
  satisfies the range and that no satisfying candidate exceeds in the order of
  \<open>semver\<close>; if none does, the entry at the end of the filtered list.
\<close>

theorem resolver_selection:
  assumes "answer_list (execSync (npm_show packageName versionRange)) = Some versions"
    and "validVersions_of versions \<noteq> []"
  shows "validVersions_of versions = filter (\<lambda>s. semver_valid s \<noteq> None) (strings_of versions)
    \<and> snd (getLatestVersion execSync satisfies packageName versionRange) = []
    \<and> ((\<exists>w \<in> set (validVersions_of versions). satisfies w versionRange) \<longrightarrow>
         fst (getLatestVersion execSync satisfies packageName versionRange)
           \<in> set (validVersions_of versions)
         \<and> satisfies (fst (getLatestVersion execSync satisfies packageName versionRange))
             versionRange
         \<and> (\<forall>w \<in> set (validVersions_of versions). satisfies w versionRange \<longrightarrow>
               \<not> semver_lt (fst (getLatestVersion execSync satisfies packageName versionRange))
                    w))
    \<and> ((\<forall>w \<in> set (validVersions_of versions). \<not> satisfies w versionRange) \<longrightarrow>
         fst (getLatestVersion execSync satisfies packageName versionRange)
           = last (validVersions_of versions))"
proof (cases "semver_maxSatisfying satisfies (validVersions_of versions) versionRange")
  case None
  then have no: "\<forall>w \<in> set (validVersions_of versions). \<not> satisfies w versionRange"
    using validVersions_valid[of _ versions] valid_iff_parse
    unfolding maxSatisfying_None by blast
  from None assms(2) have
    "getLatestVersion execSync satisfies packageName versionRange
       = (last (validVersions_of versions), [])"
    by (simp add: getLatestVersion_answered[where execSync=execSync, OF assms(1)])
  with no show ?thesis by (simp add: validVersions_of_filter)
next
  case (Some m)
  from maxSatisfying_Some[OF Some] have m: "m \<in> set (validVersions_of versions)"
    "satisfies m versionRange" "semver_valid m \<noteq> None"
    "\<forall>w \<in> set (validVersions_of versions). satisfies w versionRange \<longrightarrow> \<not> semver_lt m w"
    by auto
  from m(3) have "m \<noteq> []" using invalid_empty by auto
  with Some assms(2) have
    "getLatestVersion execSync satisfies packageName versionRange = (m, [])"
    by (simp add: getLatestVersion_answered[where execSync=execSync, OF assms(1)])
  with m show ?thesis by (auto simp: validVersions_of_filter)
qed

theorem resolver_selection_witness:
  "answer_list (newest_first_registry (npm_show ''foo'' ''*''))
     = Some [JStr ''1.10.0'', JStr ''next'', JOther, JStr ''1.9.0'']
   \<and> validVersions_of [JStr ''1.10.0'', JStr ''next'', JOther, JStr ''1.9.0'']
       = [''1.10.0'', ''1.9.0'']
   \<and> any_match ''1.9.0'' ''*''
   \<and> fst (getLatestVersion newest_first_registry any_match ''foo'' ''*'') = ''1.10.0''
   \<and> fst (getLatestVersion newest_first_registry no_match ''foo'' ''*'') = ''1.9.0''"
proof -
  let ?vs = "[JStr ''1.10.0'', JStr ''next'', JOther, JStr ''1.9.0'']"
  have a: "answer_list (newest_first_registry (npm_show ''foo'' ''*'')) = Some ?vs"
    by (simp add: answer_list_def newest_first_registry_def as_array_def)
  have ne: "validVersions_of ?vs \<noteq> []" by (simp add: newest_first_valid)
  from resolver_selection[where execSync=newest_first_registry and satisfies=any_match, OF a ne]
  have "fst (getLatestVersion newest_first_registry any_match ''foo'' ''*'')
          \<in> {''1.10.0'', ''1.9.0''}
      \<and> \<not> semver_lt (fst (getLatestVersion newest_first_registry any_match ''foo'' ''*''))
             ''1.10.0''"
    by (simp add: newest_first_valid any_match_def)
  with semver_lt_190_1100
  have 1: "fst (getLatestVersion newest_first_registry any_match ''foo'' ''*'') = ''1.10.0''"
    by auto
  from resolver_selection[where execSync=newest_first_registry and satisfies=no_match, OF a ne]
  have 2: "fst (getLatestVersion newest_first_registry no_match ''foo'' ''*'') = ''1.9.0''"
    by (simp add: newest_first_valid no_match_def)
  from a 1 2 show ?thesis by (simp add: newest_first_valid any_match_def)
qed

end
